theory Spec2Isabelle
  imports Complex_Main "HOL-Library.Sublist"
begin

section \<open>The data the notebook handles\<close>

text \<open>
  The notebook \<^verbatim>\<open>boosting_in_sklearn.ipynb\<close> is a straight-line program: every code cell
  calls into pandas, scikit-learn, xgboost or matplotlib and binds the result to a global
  name. The embedding keeps that shape. A table cell is a float, a boolean or a missing
  value (pandas' NaN); a data frame is a list of column names with a list of labelled
  rows (the label is the entry of the frame's index, which \<^verbatim>\<open>dropna\<close> does not renumber);
  a series is one labelled column.
\<close>

datatype cell = NA | Num real | Flag bool

type_synonym 'l series = "('l \<times> cell) list"

type_synonym matrix = "cell list list"

record 'l frame =
  columns :: "string list"
  rows :: "('l \<times> cell list) list"

datatype error =
    FileNotFoundError
  | ParserError
  | KeyError string
  | NameError string
  | NotFittedError string
  | AttributeError string
  | ValueError string

text \<open>A frame is rectangular: every row has one cell for each column.\<close>

definition rect :: "'l frame \<Rightarrow> bool" where
  "rect t = list_all (\<lambda>(l, r). length r = length (columns t)) (rows t)"

fun index_of :: "'a \<Rightarrow> 'a list \<Rightarrow> nat option" where
  "index_of a [] = None"
| "index_of a (b # bs) = (if a = b then Some 0 else map_option Suc (index_of a bs))"

definition cell_at :: "cell list \<Rightarrow> nat \<Rightarrow> cell" where
  "cell_at r i = (if i < length r then r ! i else NA)"

text \<open>\<^verbatim>\<open>frame[name]\<close>: the column as a series, or KeyError.\<close>

definition getcol :: "'l frame \<Rightarrow> string \<Rightarrow> error + 'l series" where
  "getcol t c =
     (case index_of c (columns t) of
        None \<Rightarrow> Inl (KeyError c)
      | Some i \<Rightarrow> Inr (map (\<lambda>(l, r). (l, cell_at r i)) (rows t)))"

text \<open>\<^verbatim>\<open>frame[names]\<close> with a list of names: the sub-frame of those columns, in that order.\<close>

fun indices_of :: "string list \<Rightarrow> string list \<Rightarrow> error + nat list" where
  "indices_of [] cs = Inr []"
| "indices_of (n # ns) cs =
     (case index_of n cs of
        None \<Rightarrow> Inl (KeyError n)
      | Some i \<Rightarrow> (case indices_of ns cs of Inl e \<Rightarrow> Inl e | Inr js \<Rightarrow> Inr (i # js)))"

definition select :: "'l frame \<Rightarrow> string list \<Rightarrow> error + 'l frame" where
  "select t ns =
     (case indices_of ns (columns t) of
        Inl e \<Rightarrow> Inl e
      | Inr js \<Rightarrow> Inr \<lparr>columns = ns, rows = map (\<lambda>(l, r). (l, map (cell_at r) js)) (rows t)\<rparr>)"

text \<open>
  \<^verbatim>\<open>frame[name] = values\<close>: an existing column of that name is overwritten in place, a new
  name is appended as the last column. The values assigned in the notebook are computed
  from a column of the same frame, so they line up with the rows one to one.
\<close>

definition setcol :: "'l frame \<Rightarrow> string \<Rightarrow> cell list \<Rightarrow> 'l frame" where
  "setcol t c vs =
     (case index_of c (columns t) of
        None \<Rightarrow> \<lparr>columns = columns t @ [c],
                 rows = map (\<lambda>((l, r), v). (l, r @ [v])) (zip (rows t) vs)\<rparr>
      | Some i \<Rightarrow> \<lparr>columns = columns t,
                   rows = map (\<lambda>((l, r), v). (l, r[i := v])) (zip (rows t) vs)\<rparr>)"

text \<open>
  Modelled from the spec: \<^verbatim>\<open>DataFrame.dropna\<close> is pandas code, which is not part of the
  repository; the notebook calls it with no argument. The spec has the cleaning step
  "filter rows with missing values", an "unconditional row-drop". With its defaults
  (\<^verbatim>\<open>axis=0, how='any'\<close>) pandas counts the cells of each row that are not missing and
  keeps the rows whose count equals the number of columns; the kept rows keep their labels
  and their order.
\<close>

definition notna :: "cell \<Rightarrow> bool" where
  "notna c = (c \<noteq> NA)"

definition dropna :: "'l frame \<Rightarrow> 'l frame" where
  "dropna t = t\<lparr>rows := filter (\<lambda>(l, r). length (filter notna r) = length (columns t)) (rows t)\<rparr>"

text \<open>\<^verbatim>\<open>frame.isnull().sum().sum()\<close>: the number of missing cells.\<close>

definition isnull_sum :: "'l frame \<Rightarrow> nat" where
  "isnull_sum t = sum_list (map (\<lambda>(l, r). length (filter (\<lambda>c. \<not> notna c) r)) (rows t))"

definition head :: "'l frame \<Rightarrow> 'l frame" where
  "head t = t\<lparr>rows := take 5 (rows t)\<rparr>"

text \<open>
  Comparison of a cell with a float, as NumPy does it: NaN compares false with
  everything, a boolean counts as 0 or 1.
\<close>

fun num_of :: "cell \<Rightarrow> real option" where
  "num_of NA = None"
| "num_of (Num v) = Some v"
| "num_of (Flag b) = Some (if b then 1 else 0)"

definition gt :: "cell \<Rightarrow> real \<Rightarrow> bool" where
  "gt c k = (case num_of c of None \<Rightarrow> False | Some v \<Rightarrow> k < v)"

definition abs_cell :: "cell \<Rightarrow> cell" where
  "abs_cell c = (case num_of c of None \<Rightarrow> NA | Some v \<Rightarrow> Num \<bar>v\<bar>)"

text \<open>
  \<^verbatim>\<open>series[label]\<close>: the value at a label. A label that occurs more than once yields a
  series instead of a scalar, and the \<^verbatim>\<open>if\<close> that tests it raises ValueError.
\<close>

definition series_at :: "string series \<Rightarrow> string \<Rightarrow> error + cell" where
  "series_at m k =
     (case filter (\<lambda>(l, v). l = k) m of
        [] \<Rightarrow> Inl (KeyError k)
      | [(l, v)] \<Rightarrow> Inr v
      | _ \<Rightarrow> Inl (ValueError ''The truth value of a Series is ambiguous''))"

text \<open>\<^verbatim>\<open>x.values.reshape(-1, 1)\<close>: the values of a series as a matrix of one column.\<close>

definition reshape :: "'l series \<Rightarrow> matrix" where
  "reshape xs = map (\<lambda>(l, v). [v]) xs"

section \<open>The library\<close>

text \<open>
  An estimator object carries its constructor parameters and, once fitted, the model the
  library learned. \<^verbatim>\<open>random_state\<close> is an integer seed or None.
\<close>

datatype pval = PInt int | PStr string

datatype estimator =
    AdaBoostRegressor "int option"
  | XGBRegressor "int option" string
  | AdaBoostClassifier "int option"
  | GradientBoostingClassifier "int option"
  | GridSearchCV estimator "(string \<times> pval list) list" nat

fun random_state :: "estimator \<Rightarrow> int option" where
  "random_state (AdaBoostRegressor r) = r"
| "random_state (XGBRegressor r ob) = r"
| "random_state (AdaBoostClassifier r) = r"
| "random_state (GradientBoostingClassifier r) = r"
| "random_state (GridSearchCV e grid cv) = random_state e"

record 'm fitted =
  params :: estimator
  model :: "'m option"

text \<open>
  The source of randomness of a library call, as scikit-learn's \<^verbatim>\<open>check_random_state\<close>
  resolves it: an integer seed starts a fresh generator from that seed; None means NumPy's
  global generator, whose state is seeded from the operating system when the process
  starts and is therefore an input of the run.
\<close>

datatype rng = Seeded int | Global nat

fun check_random_state :: "int option \<Rightarrow> nat \<Rightarrow> rng" where
  "check_random_state None g = Global g"
| "check_random_state (Some n) g = Seeded n"

text \<open>
  What the libraries compute (parsing the file, Pearson correlation, shuffling, boosting,
  scoring) is not code of this repository. It enters the model as a record of functions,
  one for each of these entry points; each may raise. The type \<^typ>\<open>'m\<close> is whatever the
  library stores in a fitted estimator; \<open>fit\<close> receives the parameters of the estimator
  and the generator its \<^verbatim>\<open>random_state\<close> resolves to, \<open>score\<close> is the estimator's own
  \<^verbatim>\<open>score\<close> method (the coefficient of determination of a regressor, the mean accuracy of
  a classifier).
\<close>

record 'm lib =
  read_csv :: "string \<Rightarrow> error + nat frame"
  corr :: "nat frame \<Rightarrow> error + string frame"
  train_test_split ::
    "rng \<Rightarrow> matrix \<Rightarrow> nat series \<Rightarrow> error + (matrix \<times> matrix \<times> nat series \<times> nat series)"
  fit :: "rng \<Rightarrow> estimator \<Rightarrow> matrix \<Rightarrow> nat series \<Rightarrow> error + 'm"
  best_params :: "'m \<Rightarrow> error + (string \<times> pval) list"
  predict :: "'m \<Rightarrow> matrix \<Rightarrow> error + cell list"
  score :: "'m \<Rightarrow> matrix \<Rightarrow> nat series \<Rightarrow> error + real"
  precision_score :: "nat series \<Rightarrow> cell list \<Rightarrow> error + real"
  recall_score :: "nat series \<Rightarrow> cell list \<Rightarrow> error + real"
  confusion_matrix :: "nat series \<Rightarrow> cell list \<Rightarrow> error + nat list list"

section \<open>The notebook's state\<close>

text \<open>
  The global names the notebook binds, each unbound (None) until its cell has run; the
  values the cells display; and the calls into the modelling library, in the order they
  are made, with the data each call receives. The names \<^verbatim>\<open>x\<close> and \<^verbatim>\<open>y\<close> of the notebook
  are the fields \<open>x_col\<close> and \<open>y_col\<close>.
\<close>

datatype shown =
    Table "nat frame"
  | CorrTable "string frame"
  | Names "string list"
  | Count nat
  | Scatter matrix "nat series"
  | Hist "nat series"
  | Repr estimator
  | Scores "real list"
  | Params "(string \<times> pval) list"
  | Score real
  | Matrix "nat list list"

datatype call =
    CallSplit "int option" matrix "nat series"
  | CallFit estimator matrix "nat series"
  | CallCrossVal estimator matrix "nat series" nat
  | CallScore estimator matrix "nat series"
  | CallPredict estimator matrix
  | CallMetric string "nat series" "cell list"

record 'm kernel =
  galaxies :: "nat frame option"
  preds :: "string list option"
  x_col :: "nat series option"
  y_col :: "nat series option"
  x_rev :: "matrix option"
  x_train :: "matrix option"
  x_test :: "matrix option"
  y_train :: "nat series option"
  y_test :: "nat series option"
  abr :: "'m fitted option"
  gs :: "'m fitted option"
  grad_boost :: "'m fitted option"
  x_train2 :: "matrix option"
  x_test2 :: "matrix option"
  y_train2 :: "nat series option"
  y_test2 :: "nat series option"
  abc :: "'m fitted option"
  gbc :: "'m fitted option"
  outs :: "shown list"
  calls :: "call list"

definition init :: "'m kernel" where
  "init = \<lparr>galaxies = None, preds = None, x_col = None, y_col = None, x_rev = None,
           x_train = None, x_test = None, y_train = None, y_test = None,
           abr = None, gs = None, grad_boost = None,
           x_train2 = None, x_test2 = None, y_train2 = None, y_test2 = None,
           abc = None, gbc = None, outs = [], calls = []\<rparr>"

text \<open>
  A cell either completes (\<open>Inr\<close>, the new state) or raises (\<open>Inl\<close>, the exception and
  the state the cell had reached when it raised). Nothing in the notebook catches an
  exception.
\<close>

type_synonym 'm outcome = "(error \<times> 'm kernel) + 'm kernel"

definition need :: "string \<Rightarrow> 'a option \<Rightarrow> error + 'a" where
  "need n v = (case v of None \<Rightarrow> Inl (NameError n) | Some a \<Rightarrow> Inr a)"

definition fitted_model :: "string \<Rightarrow> 'm fitted \<Rightarrow> error + 'm" where
  "fitted_model n e = (case model e of None \<Rightarrow> Inl (NotFittedError n) | Some m \<Rightarrow> Inr m)"

definition attempt :: "'s \<Rightarrow> error + 'a \<Rightarrow> ('a \<Rightarrow> (error \<times> 's) + 's) \<Rightarrow> (error \<times> 's) + 's" where
  "attempt s r k = (case r of Inl e \<Rightarrow> Inl (e, s) | Inr v \<Rightarrow> k v)"

definition display :: "shown \<Rightarrow> 'm kernel \<Rightarrow> 'm kernel" where
  "display v s = s\<lparr>outs := outs s @ [v]\<rparr>"

definition record_call :: "call \<Rightarrow> 'm kernel \<Rightarrow> 'm kernel" where
  "record_call c s = s\<lparr>calls := calls s @ [c]\<rparr>"

section \<open>The cells\<close>

text \<open>
  One definition for each code cell, named by the cell's position in the notebook file
  (markdown cells are counted, as Jupyter stores them). The first code cell imports the
  libraries; the model starts after it.
\<close>

text \<open>\<^verbatim>\<open>galaxies = pd.read_csv('COMBO17.csv'); galaxies.head()\<close>\<close>

definition cell4 :: "'m lib \<Rightarrow> 'm kernel \<Rightarrow> 'm outcome" where
  "cell4 L s =
     attempt s (read_csv L ''COMBO17.csv'') (\<lambda>t.
     let s1 = s\<lparr>galaxies := Some t\<rparr> in
     Inr (display (Table (head t)) s1))"

text \<open>\<^verbatim>\<open>galaxies.columns\<close>\<close>

definition cell6 :: "'m kernel \<Rightarrow> 'm outcome" where
  "cell6 s =
     attempt s (need ''galaxies'' (galaxies s)) (\<lambda>t.
     Inr (display (Names (columns t)) s))"

text \<open>\<^verbatim>\<open>galaxies.isnull().sum().sum()\<close>\<close>

definition cell7 :: "'m kernel \<Rightarrow> 'm outcome" where
  "cell7 s =
     attempt s (need ''galaxies'' (galaxies s)) (\<lambda>t.
     Inr (display (Count (isnull_sum t)) s))"

text \<open>\<^verbatim>\<open>galaxies = galaxies.dropna()\<close>\<close>

definition cell8 :: "'m kernel \<Rightarrow> 'm outcome" where
  "cell8 s =
     attempt s (need ''galaxies'' (galaxies s)) (\<lambda>t.
     Inr (s\<lparr>galaxies := Some (dropna t)\<rparr>))"

text \<open>
  \<^verbatim>\<open>
  preds = []
  for ind in galaxies.corr()['Mcz'].index:
      if abs(galaxies.corr()['Mcz'][ind]) > 0.5:
          preds.append(ind)
  \<close>
  The iterable is evaluated once; the body computes the correlation matrix again in every
  round.
\<close>

fun preds_loop :: "'m lib \<Rightarrow> string list \<Rightarrow> 'm kernel \<Rightarrow> 'm outcome" where
  "preds_loop L [] s = Inr s"
| "preds_loop L (ind # inds) s =
     (case need ''galaxies'' (galaxies s) of Inl e \<Rightarrow> Inl (e, s) | Inr t \<Rightarrow>
     (case corr L t of Inl e \<Rightarrow> Inl (e, s) | Inr c \<Rightarrow>
     (case getcol c ''Mcz'' of Inl e \<Rightarrow> Inl (e, s) | Inr m \<Rightarrow>
     (case series_at m ind of Inl e \<Rightarrow> Inl (e, s) | Inr v \<Rightarrow>
       if gt (abs_cell v) 0.5
       then (case need ''preds'' (preds s) of Inl e \<Rightarrow> Inl (e, s) | Inr p \<Rightarrow>
               preds_loop L inds (s\<lparr>preds := Some (p @ [ind])\<rparr>))
       else preds_loop L inds s))))"

definition cell10 :: "'m lib \<Rightarrow> 'm kernel \<Rightarrow> 'm outcome" where
  "cell10 L s =
     (let s1 = s\<lparr>preds := Some []\<rparr> in
      attempt s1 (need ''galaxies'' (galaxies s1)) (\<lambda>t.
      attempt s1 (corr L t) (\<lambda>c.
      attempt s1 (getcol c ''Mcz'') (\<lambda>m.
      preds_loop L (map fst m) s1))))"

text \<open>\<^verbatim>\<open>galaxies[preds].corr()\<close>\<close>

definition cell11 :: "'m lib \<Rightarrow> 'm kernel \<Rightarrow> 'm outcome" where
  "cell11 L s =
     attempt s (need ''galaxies'' (galaxies s)) (\<lambda>t.
     attempt s (need ''preds'' (preds s)) (\<lambda>p.
     attempt s (select t p) (\<lambda>t'.
     attempt s (corr L t') (\<lambda>c.
     Inr (display (CorrTable c) s)))))"

text \<open>\<^verbatim>\<open>x = galaxies['S280MAG']; y = galaxies['Mcz']\<close>\<close>

definition cell13 :: "'m kernel \<Rightarrow> 'm outcome" where
  "cell13 s =
     attempt s (need ''galaxies'' (galaxies s)) (\<lambda>t.
     attempt s (getcol t ''S280MAG'') (\<lambda>xs.
     let s1 = s\<lparr>x_col := Some xs\<rparr> in
     attempt s1 (need ''galaxies'' (galaxies s1)) (\<lambda>t1.
     attempt s1 (getcol t1 ''Mcz'') (\<lambda>ys.
     Inr (s1\<lparr>y_col := Some ys\<rparr>)))))"

text \<open>\<^verbatim>\<open>x_rev = x.values.reshape(-1, 1)\<close>\<close>

definition cell15 :: "'m kernel \<Rightarrow> 'm outcome" where
  "cell15 s =
     attempt s (need ''x'' (x_col s)) (\<lambda>xs.
     Inr (s\<lparr>x_rev := Some (reshape xs)\<rparr>))"

text \<open>\<^verbatim>\<open>mpl.pyplot.scatter(x_rev, y);\<close>\<close>

definition cell16 :: "'m kernel \<Rightarrow> 'm outcome" where
  "cell16 s =
     attempt s (need ''x_rev'' (x_rev s)) (\<lambda>X.
     attempt s (need ''y'' (y_col s)) (\<lambda>ys.
     Inr (display (Scatter X ys) s)))"

text \<open>\<^verbatim>\<open>x_train, x_test, y_train, y_test = train_test_split(x_rev, y, random_state=42)\<close>\<close>

definition cell17 :: "'m lib \<Rightarrow> nat \<Rightarrow> 'm kernel \<Rightarrow> 'm outcome" where
  "cell17 L g s =
     attempt s (need ''x_rev'' (x_rev s)) (\<lambda>X.
     attempt s (need ''y'' (y_col s)) (\<lambda>ys.
     let s1 = record_call (CallSplit (Some 42) X ys) s in
     attempt s1 (train_test_split L (check_random_state (Some 42) g) X ys) (\<lambda>(a, b, c, d).
     Inr (s1\<lparr>x_train := Some a, x_test := Some b, y_train := Some c, y_test := Some d\<rparr>))))"

text \<open>A call of \<^verbatim>\<open>estimator.fit(X, y)\<close>: the library learns a model, the object keeps it.\<close>

definition fit_call :: "'m lib \<Rightarrow> nat \<Rightarrow> estimator \<Rightarrow> matrix \<Rightarrow> nat series \<Rightarrow> error + 'm fitted" where
  "fit_call L g e X Y =
     (case fit L (check_random_state (random_state e) g) e X Y of
        Inl err \<Rightarrow> Inl err
      | Inr m \<Rightarrow> Inr \<lparr>params = e, model = Some m\<rparr>)"

text \<open>\<^verbatim>\<open>abr = AdaBoostRegressor(random_state=42); abr.fit(x_train, y_train)\<close>\<close>

definition cell18 :: "'m lib \<Rightarrow> nat \<Rightarrow> 'm kernel \<Rightarrow> 'm outcome" where
  "cell18 L g s =
     (let e = AdaBoostRegressor (Some 42);
          s1 = s\<lparr>abr := Some \<lparr>params = e, model = None\<rparr>\<rparr> in
      attempt s1 (need ''x_train'' (x_train s1)) (\<lambda>X.
      attempt s1 (need ''y_train'' (y_train s1)) (\<lambda>Y.
      let s2 = record_call (CallFit e X Y) s1 in
      attempt s2 (fit_call L g e X Y) (\<lambda>a.
      Inr (display (Repr e) (s2\<lparr>abr := Some a\<rparr>))))))"

text \<open>
  Modelled from the spec: \<^verbatim>\<open>sklearn.base.clone\<close> and \<^verbatim>\<open>cross_val_score\<close> are scikit-learn
  code, which is not part of the repository; the spec names the step ("cross-validation")
  and leaves its inside to the library. The model follows the procedure scikit-learn
  documents for a regressor and an integer \<^verbatim>\<open>cv\<close>: the samples are cut, in their order and
  without shuffling, into \<open>k\<close> consecutive folds (the first \<open>n mod k\<close> folds one sample
  longer); for each fold a clone of the estimator (the same parameters, nothing learned)
  is fitted on the other folds and scored, with the estimator's own \<^verbatim>\<open>score\<close>, on the
  fold. More folds than samples raise ValueError, and so does a fit or a score that
  raises.
\<close>

definition clone :: "'m fitted \<Rightarrow> 'm fitted" where
  "clone e = \<lparr>params = params e, model = None\<rparr>"

definition fold_start :: "nat \<Rightarrow> nat \<Rightarrow> nat \<Rightarrow> nat" where
  "fold_start n k i = i * (n div k) + min i (n mod k)"

definition fold_test :: "nat \<Rightarrow> nat \<Rightarrow> 'a list \<Rightarrow> 'a list" where
  "fold_test k i xs =
     take (fold_start (length xs) k (Suc i) - fold_start (length xs) k i)
       (drop (fold_start (length xs) k i) xs)"

definition fold_train :: "nat \<Rightarrow> nat \<Rightarrow> 'a list \<Rightarrow> 'a list" where
  "fold_train k i xs =
     take (fold_start (length xs) k i) xs @ drop (fold_start (length xs) k (Suc i)) xs"

fun cross_val_folds ::
  "'m lib \<Rightarrow> nat \<Rightarrow> 'm fitted \<Rightarrow> matrix \<Rightarrow> nat series \<Rightarrow> nat \<Rightarrow> nat list \<Rightarrow> error + real list" where
  "cross_val_folds L g e X Y k [] = Inr []"
| "cross_val_folds L g e X Y k (i # folds) =
     (case fit L (check_random_state (random_state (params (clone e))) g) (params (clone e))
             (fold_train k i X) (fold_train k i Y) of
        Inl err \<Rightarrow> Inl err
      | Inr m \<Rightarrow>
          (case score L m (fold_test k i X) (fold_test k i Y) of
             Inl err \<Rightarrow> Inl err
           | Inr v \<Rightarrow>
               (case cross_val_folds L g e X Y k folds of
                  Inl err \<Rightarrow> Inl err
                | Inr vs \<Rightarrow> Inr (v # vs))))"

definition cross_val_score ::
  "'m lib \<Rightarrow> nat \<Rightarrow> 'm fitted \<Rightarrow> matrix \<Rightarrow> nat series \<Rightarrow> nat \<Rightarrow> error + real list" where
  "cross_val_score L g e X Y k =
     (if length X < k
      then Inl (ValueError ''Cannot have number of splits greater than the number of samples'')
      else cross_val_folds L g e X Y k [0..<k])"

text \<open>
  \<^verbatim>\<open>cross_val_score(estimator, x_test, y_test, cv=5)\<close>: the call receives the estimator
  object the name is bound to.
\<close>

definition cross_val_cell ::
  "'m lib \<Rightarrow> nat \<Rightarrow> string \<Rightarrow> ('m kernel \<Rightarrow> 'm fitted option) \<Rightarrow> 'm kernel \<Rightarrow> 'm outcome" where
  "cross_val_cell L g name est s =
     attempt s (need name (est s)) (\<lambda>e.
     attempt s (need ''x_test'' (x_test s)) (\<lambda>X.
     attempt s (need ''y_test'' (y_test s)) (\<lambda>Y.
     let s1 = record_call (CallCrossVal (params e) X Y 5) s in
     attempt s1 (cross_val_score L g e X Y 5) (\<lambda>sc.
     Inr (display (Scores sc) s1)))))"

text \<open>\<^verbatim>\<open>cross_val_score(abr, x_test, y_test, cv=5)\<close>\<close>

definition cell19 :: "'m lib \<Rightarrow> nat \<Rightarrow> 'm kernel \<Rightarrow> 'm outcome" where
  "cell19 L g = cross_val_cell L g ''abr'' abr"

text \<open>
  \<^verbatim>\<open>
  gs = GridSearchCV(estimator=abr,
                   param_grid={'n_estimators': [25, 50, 100], 'loss': ['linear', 'square']},
                   cv=5)
  \<close>
\<close>

definition cell21 :: "'m kernel \<Rightarrow> 'm outcome" where
  "cell21 s =
     attempt s (need ''abr'' (abr s)) (\<lambda>a.
     Inr (s\<lparr>gs := Some \<lparr>params = GridSearchCV (params a)
                [(''n_estimators'', [PInt 25, PInt 50, PInt 100]),
                 (''loss'', [PStr ''linear'', PStr ''square''])] 5,
              model = None\<rparr>\<rparr>))"

text \<open>\<^verbatim>\<open>gs.fit(x_train, y_train)\<close>\<close>

definition cell22 :: "'m lib \<Rightarrow> nat \<Rightarrow> 'm kernel \<Rightarrow> 'm outcome" where
  "cell22 L g s =
     attempt s (need ''gs'' (gs s)) (\<lambda>e.
     attempt s (need ''x_train'' (x_train s)) (\<lambda>X.
     attempt s (need ''y_train'' (y_train s)) (\<lambda>Y.
     let s1 = record_call (CallFit (params e) X Y) s in
     attempt s1 (fit_call L g (params e) X Y) (\<lambda>a.
     Inr (display (Repr (params e)) (s1\<lparr>gs := Some a\<rparr>))))))"

text \<open>
  \<^verbatim>\<open>gs.best_params_\<close>: the attribute exists only once the search has been fitted.
\<close>

definition cell23 :: "'m lib \<Rightarrow> 'm kernel \<Rightarrow> 'm outcome" where
  "cell23 L s =
     attempt s (need ''gs'' (gs s)) (\<lambda>e.
     attempt s (case model e of
                  None \<Rightarrow> Inl (AttributeError ''best_params_'')
                | Some m \<Rightarrow> Inr m) (\<lambda>m.
     attempt s (best_params L m) (\<lambda>p.
     Inr (display (Params p) s))))"

text \<open>
  \<^verbatim>\<open>
  grad_boost = xgboost.XGBRegressor(random_state=42, objective='reg:squarederror')
  grad_boost.fit(x_train, y_train)
  \<close>
\<close>

definition cell25 :: "'m lib \<Rightarrow> nat \<Rightarrow> 'm kernel \<Rightarrow> 'm outcome" where
  "cell25 L g s =
     (let e = XGBRegressor (Some 42) ''reg:squarederror'';
          s1 = s\<lparr>grad_boost := Some \<lparr>params = e, model = None\<rparr>\<rparr> in
      attempt s1 (need ''x_train'' (x_train s1)) (\<lambda>X.
      attempt s1 (need ''y_train'' (y_train s1)) (\<lambda>Y.
      let s2 = record_call (CallFit e X Y) s1 in
      attempt s2 (fit_call L g e X Y) (\<lambda>a.
      Inr (display (Repr e) (s2\<lparr>grad_boost := Some a\<rparr>))))))"

text \<open>\<^verbatim>\<open>cross_val_score(grad_boost, x_test, y_test, cv=5)\<close>\<close>

definition cell26 :: "'m lib \<Rightarrow> nat \<Rightarrow> 'm kernel \<Rightarrow> 'm outcome" where
  "cell26 L g = cross_val_cell L g ''grad_boost'' grad_boost"

text \<open>\<^verbatim>\<open>galaxies['Mcz'].hist();\<close>\<close>

definition cell28 :: "'m kernel \<Rightarrow> 'm outcome" where
  "cell28 s =
     attempt s (need ''galaxies'' (galaxies s)) (\<lambda>t.
     attempt s (getcol t ''Mcz'') (\<lambda>ys.
     Inr (display (Hist ys) s)))"

text \<open>\<^verbatim>\<open>galaxies['bool'] = galaxies['Mcz'] > 0.5\<close>\<close>

definition cell30 :: "'m kernel \<Rightarrow> 'm outcome" where
  "cell30 s =
     attempt s (need ''galaxies'' (galaxies s)) (\<lambda>t.
     attempt s (getcol t ''Mcz'') (\<lambda>ys.
     Inr (s\<lparr>galaxies := Some (setcol t ''bool'' (map (\<lambda>(l, v). Flag (gt v 0.5)) ys))\<rparr>)))"

text \<open>\<^verbatim>\<open>x_train2, x_test2, y_train2, y_test2 = train_test_split(x_rev, galaxies['bool'])\<close>\<close>

definition cell31 :: "'m lib \<Rightarrow> nat \<Rightarrow> 'm kernel \<Rightarrow> 'm outcome" where
  "cell31 L g s =
     attempt s (need ''x_rev'' (x_rev s)) (\<lambda>X.
     attempt s (need ''galaxies'' (galaxies s)) (\<lambda>t.
     attempt s (getcol t ''bool'') (\<lambda>bs.
     let s1 = record_call (CallSplit None X bs) s in
     attempt s1 (train_test_split L (check_random_state None g) X bs) (\<lambda>(a, b, c, d).
     Inr (s1\<lparr>x_train2 := Some a, x_test2 := Some b, y_train2 := Some c, y_test2 := Some d\<rparr>)))))"

text \<open>\<^verbatim>\<open>abc = AdaBoostClassifier(random_state=42); abc.fit(x_train2, y_train2)\<close>\<close>

definition cell32 :: "'m lib \<Rightarrow> nat \<Rightarrow> 'm kernel \<Rightarrow> 'm outcome" where
  "cell32 L g s =
     (let e = AdaBoostClassifier (Some 42);
          s1 = s\<lparr>abc := Some \<lparr>params = e, model = None\<rparr>\<rparr> in
      attempt s1 (need ''x_train2'' (x_train2 s1)) (\<lambda>X.
      attempt s1 (need ''y_train2'' (y_train2 s1)) (\<lambda>Y.
      let s2 = record_call (CallFit e X Y) s1 in
      attempt s2 (fit_call L g e X Y) (\<lambda>a.
      Inr (display (Repr e) (s2\<lparr>abc := Some a\<rparr>))))))"

text \<open>\<^verbatim>\<open>estimator.score(x_test2, y_test2)\<close>: the mean accuracy of the fitted model.\<close>

definition score_cell ::
  "'m lib \<Rightarrow> string \<Rightarrow> ('m kernel \<Rightarrow> 'm fitted option) \<Rightarrow> 'm kernel \<Rightarrow> 'm outcome" where
  "score_cell L name est s =
     attempt s (need name (est s)) (\<lambda>e.
     attempt s (need ''x_test2'' (x_test2 s)) (\<lambda>X.
     attempt s (need ''y_test2'' (y_test2 s)) (\<lambda>Y.
     attempt s (fitted_model name e) (\<lambda>m.
     let s1 = record_call (CallScore (params e) X Y) s in
     attempt s1 (score L m X Y) (\<lambda>v.
     Inr (display (Score v) s1))))))"

text \<open>
  \<^verbatim>\<open>metric(y_test2, estimator.predict(x_test2))\<close> for one of the metric functions of
  \<^verbatim>\<open>sklearn.metrics\<close>.
\<close>

definition metric_cell ::
  "'m lib \<Rightarrow> string \<Rightarrow> (nat series \<Rightarrow> cell list \<Rightarrow> error + shown) \<Rightarrow>
   string \<Rightarrow> ('m kernel \<Rightarrow> 'm fitted option) \<Rightarrow> 'm kernel \<Rightarrow> 'm outcome" where
  "metric_cell L mname metric name est s =
     attempt s (need ''y_test2'' (y_test2 s)) (\<lambda>Y.
     attempt s (need name (est s)) (\<lambda>e.
     attempt s (need ''x_test2'' (x_test2 s)) (\<lambda>X.
     attempt s (fitted_model name e) (\<lambda>m.
     let s1 = record_call (CallPredict (params e) X) s in
     attempt s1 (predict L m X) (\<lambda>p.
     let s2 = record_call (CallMetric mname Y p) s1 in
     attempt s2 (metric Y p) (\<lambda>v.
     Inr (display v s2)))))))"

definition shown_as :: "('a \<Rightarrow> shown) \<Rightarrow> error + 'a \<Rightarrow> error + shown" where
  "shown_as f r = (case r of Inl e \<Rightarrow> Inl e | Inr v \<Rightarrow> Inr (f v))"

text \<open>\<^verbatim>\<open>abc.score(x_test2, y_test2)\<close>\<close>

definition cell33 :: "'m lib \<Rightarrow> 'm kernel \<Rightarrow> 'm outcome" where
  "cell33 L = score_cell L ''abc'' abc"

text \<open>\<^verbatim>\<open>precision_score(y_test2, abc.predict(x_test2))\<close>\<close>

definition cell34 :: "'m lib \<Rightarrow> 'm kernel \<Rightarrow> 'm outcome" where
  "cell34 L =
     metric_cell L ''precision_score'' (\<lambda>Y p. shown_as Score (precision_score L Y p)) ''abc'' abc"

text \<open>\<^verbatim>\<open>recall_score(y_test2, abc.predict(x_test2))\<close>\<close>

definition cell35 :: "'m lib \<Rightarrow> 'm kernel \<Rightarrow> 'm outcome" where
  "cell35 L =
     metric_cell L ''recall_score'' (\<lambda>Y p. shown_as Score (recall_score L Y p)) ''abc'' abc"

text \<open>\<^verbatim>\<open>gbc = GradientBoostingClassifier(random_state=42); gbc.fit(x_test2, y_test2)\<close>\<close>

definition cell36 :: "'m lib \<Rightarrow> nat \<Rightarrow> 'm kernel \<Rightarrow> 'm outcome" where
  "cell36 L g s =
     (let e = GradientBoostingClassifier (Some 42);
          s1 = s\<lparr>gbc := Some \<lparr>params = e, model = None\<rparr>\<rparr> in
      attempt s1 (need ''x_test2'' (x_test2 s1)) (\<lambda>X.
      attempt s1 (need ''y_test2'' (y_test2 s1)) (\<lambda>Y.
      let s2 = record_call (CallFit e X Y) s1 in
      attempt s2 (fit_call L g e X Y) (\<lambda>a.
      Inr (display (Repr e) (s2\<lparr>gbc := Some a\<rparr>))))))"

text \<open>\<^verbatim>\<open>gbc.score(x_test2, y_test2)\<close>\<close>

definition cell37 :: "'m lib \<Rightarrow> 'm kernel \<Rightarrow> 'm outcome" where
  "cell37 L = score_cell L ''gbc'' gbc"

text \<open>\<^verbatim>\<open>precision_score(y_test2, gbc.predict(x_test2))\<close>\<close>

definition cell38 :: "'m lib \<Rightarrow> 'm kernel \<Rightarrow> 'm outcome" where
  "cell38 L =
     metric_cell L ''precision_score'' (\<lambda>Y p. shown_as Score (precision_score L Y p)) ''gbc'' gbc"

text \<open>\<^verbatim>\<open>recall_score(y_test2, gbc.predict(x_test2))\<close>\<close>

definition cell39 :: "'m lib \<Rightarrow> 'm kernel \<Rightarrow> 'm outcome" where
  "cell39 L =
     metric_cell L ''recall_score'' (\<lambda>Y p. shown_as Score (recall_score L Y p)) ''gbc'' gbc"

text \<open>\<^verbatim>\<open>confusion_matrix(y_test2, gbc.predict(x_test2))\<close>\<close>

definition cell40 :: "'m lib \<Rightarrow> 'm kernel \<Rightarrow> 'm outcome" where
  "cell40 L =
     metric_cell L ''confusion_matrix'' (\<lambda>Y p. shown_as Matrix (confusion_matrix L Y p)) ''gbc'' gbc"

section \<open>Running the notebook\<close>

text \<open>
  The cells run top to bottom. The run stops at the first cell that raises; its result
  is the list of the cells that were started, each with the state it left, and the
  exception if there was one.
\<close>

type_synonym 'm step = "nat \<times> ('m kernel \<Rightarrow> 'm outcome)"

fun exec :: "'m step list \<Rightarrow> 'm kernel \<Rightarrow> (nat \<times> 'm kernel) list \<times> error option" where
  "exec [] s = ([], None)"
| "exec ((n, c) # cs) s =
     (case c s of
        Inl (e, s') \<Rightarrow> ([(n, s')], Some e)
      | Inr s' \<Rightarrow> (case exec cs s' of (tr, r) \<Rightarrow> ((n, s') # tr, r)))"

definition loading :: "'m lib \<Rightarrow> 'm step list" where
  "loading L = [(4, cell4 L), (6, cell6), (7, cell7), (8, cell8)]"

definition correlation :: "'m lib \<Rightarrow> 'm step list" where
  "correlation L = [(10, cell10 L), (11, cell11 L)]"

definition regression :: "'m lib \<Rightarrow> nat \<Rightarrow> 'm step list" where
  "regression L g =
     [(13, cell13), (15, cell15), (16, cell16), (17, cell17 L g), (18, cell18 L g),
      (19, cell19 L g), (21, cell21), (22, cell22 L g), (23, cell23 L), (25, cell25 L g),
      (26, cell26 L g)]"

definition classification :: "'m lib \<Rightarrow> nat \<Rightarrow> 'm step list" where
  "classification L g =
     [(28, cell28), (30, cell30), (31, cell31 L g), (32, cell32 L g), (33, cell33 L),
      (34, cell34 L), (35, cell35 L), (36, cell36 L g), (37, cell37 L), (38, cell38 L),
      (39, cell39 L), (40, cell40 L)]"

definition notebook :: "'m lib \<Rightarrow> nat \<Rightarrow> 'm step list" where
  "notebook L g = loading L @ correlation L @ regression L g @ classification L g"

definition run :: "'m lib \<Rightarrow> nat \<Rightarrow> (nat \<times> 'm kernel) list \<times> error option" where
  "run L g = exec (notebook L g) init"

text \<open>The state a run ends in: the state left by the last cell that was started.\<close>

definition final :: "'m lib \<Rightarrow> nat \<Rightarrow> 'm kernel" where
  "final L g = last (init # map snd (fst (run L g)))"

definition upto_regression :: "'m lib \<Rightarrow> nat \<Rightarrow> 'm step list" where
  "upto_regression L g = loading L @ correlation L @ regression L g"

definition later_cells :: "'m lib \<Rightarrow> nat \<Rightarrow> 'm step list" where
  "later_cells L g = correlation L @ regression L g @ classification L g"

definition modelling :: "'m lib \<Rightarrow> nat \<Rightarrow> 'm step list" where
  "modelling L g = regression L g @ classification L g"

definition cell_order :: "nat list" where
  "cell_order = [4, 6, 7, 8, 10, 11, 13, 15, 16, 17, 18, 19, 21, 22, 23, 25, 26,
                 28, 30, 31, 32, 33, 34, 35, 36, 37, 38, 39, 40]"

definition steps :: "(nat \<times> 'm kernel) list \<times> error option \<Rightarrow> nat list" where
  "steps r = map fst (fst r)"

section \<open>What a run reports\<close>

text \<open>
  The results of the regression stage are the first train/test partition and the score
  arrays that the two cross-validation cells display; the results of the classification
  stage are the second partition and the accuracies, precisions, recalls and the confusion
  matrix that its cells display.
\<close>

fun is_scores :: "shown \<Rightarrow> bool" where
  "is_scores (Scores sc) = True"
| "is_scores v = False"

fun is_metric :: "shown \<Rightarrow> bool" where
  "is_metric (Score v) = True"
| "is_metric (Matrix m) = True"
| "is_metric v = False"

definition first_partition ::
  "'m kernel \<Rightarrow> matrix option \<times> matrix option \<times> nat series option \<times> nat series option" where
  "first_partition s = (x_train s, x_test s, y_train s, y_test s)"

definition second_partition ::
  "'m kernel \<Rightarrow> matrix option \<times> matrix option \<times> nat series option \<times> nat series option" where
  "second_partition s = (x_train2 s, x_test2 s, y_train2 s, y_test2 s)"

definition cv_scores :: "'m kernel \<Rightarrow> shown list" where
  "cv_scores s = filter is_scores (outs s)"

definition classification_scores :: "'m kernel \<Rightarrow> shown list" where
  "classification_scores s = filter is_metric (outs s)"

text \<open>The data that the calls of \<^verbatim>\<open>fit\<close> on an estimator with parameters \<open>e\<close> have received.\<close>

fun fit_data :: "estimator \<Rightarrow> call \<Rightarrow> (matrix \<times> nat series) list" where
  "fit_data e (CallFit e' X Y) = (if e' = e then [(X, Y)] else [])"
| "fit_data e c = []"

definition fitted_on :: "'m kernel \<Rightarrow> estimator \<Rightarrow> (matrix \<times> nat series) list" where
  "fitted_on s e = concat (map (fit_data e) (calls s))"

text \<open>
  A digest of a finished run: the exception it ended with if any, the two partitions, the
  displayed classification scores, and the data the two classifiers were fitted on.
\<close>

definition summary ::
  "error option \<Rightarrow> 'm kernel \<Rightarrow>
   error option
   \<times> (matrix option \<times> matrix option \<times> nat series option \<times> nat series option)
   \<times> (matrix option \<times> matrix option \<times> nat series option \<times> nat series option)
   \<times> shown list \<times> (matrix \<times> nat series) list \<times> (matrix \<times> nat series) list" where
  "summary err s =
     (err, first_partition s, second_partition s, classification_scores s,
      fitted_on s (AdaBoostClassifier (Some 42)),
      fitted_on s (GradientBoostingClassifier (Some 42)))"

definition digest ::
  "(nat \<times> 'm kernel) list \<times> error option \<Rightarrow>
   error option
   \<times> (matrix option \<times> matrix option \<times> nat series option \<times> nat series option)
   \<times> (matrix option \<times> matrix option \<times> nat series option \<times> nat series option)
   \<times> shown list \<times> (matrix \<times> nat series) list \<times> (matrix \<times> nat series) list" where
  "digest r = (case r of (tr, err) \<Rightarrow> summary err (last (init # map snd tr)))"

text \<open>What one cell displays when it is run in a state, or the exception it raises.\<close>

definition report :: "('m kernel \<Rightarrow> 'm outcome) \<Rightarrow> 'm kernel \<Rightarrow> error + shown list" where
  "report c s =
     (case c s of Inl (e, s') \<Rightarrow> Inl e | Inr s' \<Rightarrow> Inr (drop (length (outs s)) (outs s')))"

text \<open>The first \<open>n\<close> columns of a frame, with all its rows.\<close>

definition first_columns :: "nat \<Rightarrow> 'l frame \<Rightarrow> 'l frame" where
  "first_columns n t =
     \<lparr>columns = take n (columns t), rows = map (\<lambda>(l, r). (l, take n r)) (rows t)\<rparr>"

text \<open>
  The feature matrix the notebook builds from a table: the column \<^verbatim>\<open>S280MAG\<close> alone,
  one row for each galaxy (empty when the table has no such column).
\<close>

definition s280mag :: "nat frame \<Rightarrow> matrix" where
  "s280mag t = (case getcol t ''S280MAG'' of Inl e \<Rightarrow> [] | Inr xs \<Rightarrow> reshape xs)"

text \<open>
  The feature matrices that a train/test split of \<open>X\<close> can hand out in a run with global
  generator state \<open>g\<close>: the training part and the test part, for any seed and any target.
\<close>

definition split_parts :: "'m lib \<Rightarrow> nat \<Rightarrow> matrix \<Rightarrow> matrix set" where
  "split_parts L g X =
     {P. \<exists>sd Y a b c d.
           train_test_split L (check_random_state sd g) X Y = Inr (a, b, c, d) \<and> (P = a \<or> P = b)}"

text \<open>
  The feature matrices that the calls of \<^verbatim>\<open>fit\<close> and of \<^verbatim>\<open>cross_val_score\<close> made so far
  have received.
\<close>

fun fit_features_of :: "call \<Rightarrow> matrix list" where
  "fit_features_of (CallFit e X Y) = [X]"
| "fit_features_of (CallCrossVal e X Y k) = [X]"
| "fit_features_of c = []"

definition fit_features :: "'m kernel \<Rightarrow> matrix list" where
  "fit_features s = concat (map fit_features_of (calls s))"

text \<open>
  The state a cell leaves, whether it completes or raises, and two notions for reasoning
  about a sequence of cells: a cell keeps a property of the state when the property holds
  again in the state it leaves; a cell leaves an observation of the state unchanged when
  the observation has the same value afterwards.
\<close>

fun after :: "'m outcome \<Rightarrow> 'm kernel" where
  "after (Inl (e, s)) = s"
| "after (Inr s) = s"

definition keeps :: "('m kernel \<Rightarrow> bool) \<Rightarrow> ('m kernel \<Rightarrow> 'm outcome) \<Rightarrow> bool" where
  "keeps I c = (\<forall>s. I s \<longrightarrow> I (after (c s)))"

definition unchanged :: "('m kernel \<Rightarrow> 'a) \<Rightarrow> ('m kernel \<Rightarrow> 'm outcome) \<Rightarrow> bool" where
  "unchanged f c = (\<forall>s. f (after (c s)) = f s)"

text \<open>
  The table bound to \<^verbatim>\<open>galaxies\<close> is \<open>t\<close>, or \<open>t\<close> with a column \<^verbatim>\<open>bool\<close> of one value
  for each row.
\<close>

definition labelled :: "nat frame \<Rightarrow> 'm kernel \<Rightarrow> bool" where
  "labelled t s =
     (galaxies s = Some t
      \<or> (\<exists>vs. length vs = length (rows t) \<and> galaxies s = Some (setcol t ''bool'' vs)))"

text \<open>
  Where the features in a state come from, for a cleaned table \<open>t\<close>: the table bound to
  \<^verbatim>\<open>galaxies\<close> still has the column \<^verbatim>\<open>S280MAG\<close> of \<open>t\<close>, \<^verbatim>\<open>x\<close> is that column, \<^verbatim>\<open>x_rev\<close> is
  its one-column matrix, the four feature partitions are parts of splits of that matrix,
  and so is every feature matrix that a call of \<^verbatim>\<open>fit\<close> or of \<^verbatim>\<open>cross_val_score\<close> has
  received.
\<close>

definition provenance :: "'m lib \<Rightarrow> nat \<Rightarrow> nat frame \<Rightarrow> 'm kernel \<Rightarrow> bool" where
  "provenance L g t s =
     ((\<exists>t'. galaxies s = Some t' \<and> rect t' \<and> getcol t' ''S280MAG'' = getcol t ''S280MAG'')
    \<and> (\<forall>xs. x_col s = Some xs \<longrightarrow> getcol t ''S280MAG'' = Inr xs)
    \<and> (\<forall>X. x_rev s = Some X \<longrightarrow> X = s280mag t)
    \<and> (\<forall>P. x_train s = Some P \<or> x_test s = Some P \<or> x_train2 s = Some P \<or> x_test2 s = Some P
           \<longrightarrow> P \<in> split_parts L g (s280mag t))
    \<and> set (fit_features s) \<subseteq> split_parts L g (s280mag t))"

definition feature_view ::
  "'m kernel \<Rightarrow> nat frame option \<times> nat series option \<times> matrix option \<times> matrix option
     \<times> matrix option \<times> matrix option \<times> matrix option \<times> matrix list" where
  "feature_view s =
     (galaxies s, x_col s, x_rev s, x_train s, x_test s, x_train2 s, x_test2 s, fit_features s)"

text \<open>An outcome with \<^verbatim>\<open>preds\<close> rebound in the state it leaves.\<close>

fun with_preds :: "string list option \<Rightarrow> 'm outcome \<Rightarrow> 'm outcome" where
  "with_preds q (Inl (e, s)) = Inl (e, s\<lparr>preds := q\<rparr>)"
| "with_preds q (Inr s) = Inr (s\<lparr>preds := q\<rparr>)"

text \<open>Every estimator bound in the state was constructed with an integer seed.\<close>

definition seeded :: "'m kernel \<Rightarrow> bool" where
  "seeded s =
     ((case abr s of None \<Rightarrow> True | Some a \<Rightarrow> random_state (params a) \<noteq> None)
    \<and> (case gs s of None \<Rightarrow> True | Some a \<Rightarrow> random_state (params a) \<noteq> None)
    \<and> (case grad_boost s of None \<Rightarrow> True | Some a \<Rightarrow> random_state (params a) \<noteq> None))"

section \<open>A small library to run the notebook on\<close>

text \<open>
  To run the notebook on concrete data the library record is filled with small
  stand-ins: a file of five galaxies with three columns, a correlation table that depends
  on the column names only, a split that keeps the order of the rows for a seeded
  generator and rotates them by the generator state otherwise (a quarter of the rows,
  rounded up, is the test part), and a learner that always predicts the target of its
  first training row.
\<close>

definition demo_table :: "nat frame" where
  "demo_table =
     \<lparr>columns = [''Mcz'', ''S280MAG'', ''Rmag''],
      rows = [(0, [Num 0.832, Num (- 18.2), Num 24.9]),
              (1, [Num 0.5, Num (- 17.1), Num 25.0]),
              (2, [Num 0.3, NA, Num 24.2]),
              (3, [Num 0.2, Num (- 15.0), Num 25.2]),
              (4, [Num 1.2, Num (- 19.8), Num 25.5])]\<rparr>"

definition demo_r :: "string \<Rightarrow> string \<Rightarrow> real" where
  "demo_r a b = (if a = b then 1 else if a = ''Rmag'' \<or> b = ''Rmag'' then 0.5 else - 0.8)"

definition demo_corr :: "nat frame \<Rightarrow> error + string frame" where
  "demo_corr t =
     Inr \<lparr>columns = columns t,
          rows = map (\<lambda>a. (a, map (\<lambda>b. Num (demo_r a b)) (columns t))) (columns t)\<rparr>"

definition demo_shuffle :: "rng \<Rightarrow> 'a list \<Rightarrow> 'a list" where
  "demo_shuffle r xs =
     (case r of
        Seeded n \<Rightarrow> xs
      | Global g \<Rightarrow> drop (g mod length xs) xs @ take (g mod length xs) xs)"

definition demo_split ::
  "rng \<Rightarrow> matrix \<Rightarrow> nat series \<Rightarrow> error + (matrix \<times> matrix \<times> nat series \<times> nat series)" where
  "demo_split r X Y =
     (if X = [] then Inl (ValueError ''empty'')
      else let k = (length X + 3) div 4; X' = demo_shuffle r X; Y' = demo_shuffle r Y
           in Inr (drop k X', take k X', drop k Y', take k Y'))"

definition demo_fit :: "rng \<Rightarrow> estimator \<Rightarrow> matrix \<Rightarrow> nat series \<Rightarrow> error + cell" where
  "demo_fit r e X Y = (case Y of [] \<Rightarrow> Inl (ValueError ''empty'') | (l, v) # ys \<Rightarrow> Inr v)"

definition demo_predict :: "cell \<Rightarrow> matrix \<Rightarrow> error + cell list" where
  "demo_predict m X = Inr (map (\<lambda>r. m) X)"

definition demo_score :: "cell \<Rightarrow> matrix \<Rightarrow> nat series \<Rightarrow> error + real" where
  "demo_score m X Y = Inr (real (length (filter (\<lambda>(l, v). v = m) Y)) / real (length Y))"

definition hits :: "bool \<Rightarrow> bool \<Rightarrow> nat series \<Rightarrow> cell list \<Rightarrow> nat" where
  "hits a b Y p = length (filter (\<lambda>((l, v), q). v = Flag a \<and> q = Flag b) (zip Y p))"

definition ratio :: "nat \<Rightarrow> nat \<Rightarrow> real" where
  "ratio a b = (if b = 0 then 0 else real a / real b)"

definition demo_lib :: "cell lib" where
  "demo_lib =
     \<lparr>read_csv = (\<lambda>f. if f = ''COMBO17.csv'' then Inr demo_table else Inl FileNotFoundError),
      corr = demo_corr,
      train_test_split = demo_split,
      fit = demo_fit,
      best_params = (\<lambda>m. Inr [(''loss'', PStr ''linear''), (''n_estimators'', PInt 50)]),
      predict = demo_predict,
      score = demo_score,
      precision_score =
        (\<lambda>Y p. Inr (ratio (hits True True Y p) (hits True True Y p + hits False True Y p))),
      recall_score =
        (\<lambda>Y p. Inr (ratio (hits True True Y p) (hits True True Y p + hits True False Y p))),
      confusion_matrix =
        (\<lambda>Y p. Inr [[hits False False Y p, hits False True Y p],
                     [hits True False Y p, hits True True Y p]])\<rparr>"

text \<open>The same library with no file to read.\<close>

definition demo_lib_no_file :: "cell lib" where
  "demo_lib_no_file = demo_lib\<lparr>read_csv := (\<lambda>f. Inl FileNotFoundError)\<rparr>"

text \<open>
  A larger file, of eighteen galaxies, so that a quarter of the cleaned rows is enough for
  five folds; and a library that reads it. In the last library
  \<^verbatim>\<open>GradientBoostingClassifier.fit\<close> refuses a target with a single class, as
  scikit-learn's does.
\<close>

definition survey_table :: "nat frame" where
  "survey_table =
     \<lparr>columns = [''Mcz'', ''S280MAG'', ''Rmag''],
      rows = [(0, [Num 0.8, Num (- 10), Num 20]),
              (1, [Num 0.9, Num (- 11), Num 21]),
              (2, [Num 1.1, Num (- 12), Num 22]),
              (3, [Num 0.7, Num (- 13), Num 23]),
              (4, [Num 0.6, Num (- 14), Num 24]),
              (5, [Num 0.5, Num (- 15), Num 25]),
              (6, [Num 0.3, NA, Num 26]),
              (7, [Num 0.2, Num (- 17), Num 27]),
              (8, [Num 0.9, Num (- 18), Num 28]),
              (9, [Num 0.1, Num (- 19), Num 29]),
              (10, [Num 1.0, Num (- 20), Num 30]),
              (11, [Num 0.4, Num (- 21), Num 31]),
              (12, [Num 0.3, Num (- 22), Num 32]),
              (13, [Num 0.8, Num (- 23), Num 33]),
              (14, [Num 0.2, Num (- 24), Num 34]),
              (15, [Num 0.6, Num (- 25), Num 35]),
              (16, [Num 0.1, Num (- 26), Num 36]),
              (17, [Num 0.7, Num (- 27), Num 37])]\<rparr>"

definition survey_lib :: "cell lib" where
  "survey_lib = demo_lib\<lparr>read_csv := (\<lambda>f. Inr survey_table)\<rparr>"

fun one_class :: "nat series \<Rightarrow> bool" where
  "one_class [] = True"
| "one_class ((l, v) # ys) = list_all (\<lambda>(l', w). w = v) ys"

definition strict_fit :: "rng \<Rightarrow> estimator \<Rightarrow> matrix \<Rightarrow> nat series \<Rightarrow> error + cell" where
  "strict_fit r e X Y =
     (case e of
        GradientBoostingClassifier sd \<Rightarrow>
          if one_class Y then Inl (ValueError ''y contains 1 class'') else demo_fit r e X Y
      | _ \<Rightarrow> demo_fit r e X Y)"

definition strict_lib :: "cell lib" where
  "strict_lib = survey_lib\<lparr>fit := strict_fit\<rparr>"

section \<open>Properties\<close>

lemmas cell_defs = cell4_def cell6_def cell7_def cell8_def cell10_def cell11_def cell13_def cell15_def
  cell16_def cell17_def cell18_def cell19_def cell21_def cell22_def cell23_def cell25_def cell26_def
  cell28_def cell30_def cell31_def cell32_def cell33_def cell34_def cell35_def cell36_def cell37_def
  cell38_def cell39_def cell40_def cross_val_cell_def score_cell_def metric_cell_def fit_call_def
  attempt_def need_def fitted_model_def display_def record_call_def shown_as_def

lemma exec_append:
  "exec (cs @ ds) s =
     (case exec cs s of
        (tr, Some e) \<Rightarrow> (tr, Some e)
      | (tr, None) \<Rightarrow> (case exec ds (last (s # map snd tr)) of (tr', r) \<Rightarrow> (tr @ tr', r)))"
proof (induction cs arbitrary: s)
  case Nil
  then show ?case by simp
next
  case (Cons a cs)
  obtain n c where a: "a = (n, c)" by (cases a)
  show ?case
  proof (cases "c s")
    case (Inl p)
    then show ?thesis using a by (cases p) simp
  next
    case (Inr s')
    then show ?thesis using a Cons.IH [of s']
      by (auto split: prod.splits option.splits)
  qed
qed

lemma exec_invariant:
  assumes "\<forall>(n, c) \<in> set cs. keeps I c" and "I s"
  shows "\<forall>(n, s') \<in> set (fst (exec cs s)). I s'"
  using assms
proof (induction cs arbitrary: s)
  case Nil
  then show ?case by simp
next
  case (Cons a cs)
  obtain n c where a: "a = (n, c)" by (cases a)
  have k: "I (after (c s))" using Cons.prems a by (simp add: keeps_def)
  show ?case
  proof (cases "c s")
    case (Inl p)
    then show ?thesis using a k by (cases p) auto
  next
    case (Inr s')
    have "I s'" using k Inr by simp
    then have "\<forall>(n, s'') \<in> set (fst (exec cs s')). I s''"
      using Cons.IH Cons.prems(1) by simp
    then show ?thesis using a Inr \<open>I s'\<close> by (auto split: prod.splits)
  qed
qed

lemma exec_steps: "prefix (map fst (fst (exec cs s))) (map fst cs)"
proof (induction cs arbitrary: s)
  case Nil
  then show ?case by simp
next
  case (Cons a cs)
  obtain n c where a: "a = (n, c)" by (cases a)
  show ?case
  proof (cases "c s")
    case (Inl p)
    then show ?thesis using a by (cases p) simp
  next
    case (Inr s')
    then show ?thesis using a Cons.IH [of s'] by (auto split: prod.splits)
  qed
qed

lemmas stage_defs = notebook_def loading_def correlation_def regression_def classification_def

lemma index_of_None: "index_of a xs = None \<longleftrightarrow> a \<notin> set xs"
  by (induction xs) auto

lemma index_of_Some: "index_of a xs = Some i \<Longrightarrow> i < length xs \<and> xs ! i = a"
  by (induction xs arbitrary: i) (auto split: if_splits)

lemma index_of_append_new: "a \<notin> set xs \<Longrightarrow> index_of a (xs @ [a]) = Some (length xs)"
  by (induction xs) auto

lemma index_of_append_old: "index_of a xs = Some i \<Longrightarrow> index_of a (xs @ ys) = Some i"
  by (induction xs arbitrary: i) (auto split: if_splits)

lemma filter_all_length: "length (filter P xs) = length xs \<longleftrightarrow> (\<forall>x \<in> set xs. P x)"
proof
  assume "length (filter P xs) = length xs"
  then show "\<forall>x \<in> set xs. P x"
    using length_filter_less [of _ xs P] by fastforce
next
  assume "\<forall>x \<in> set xs. P x"
  then show "length (filter P xs) = length xs" by simp
qed

lemma dropna_rows:
  assumes "rect t"
  shows "rows (dropna t) = filter (\<lambda>(l, r). NA \<notin> set r) (rows t)"
proof -
  have "\<And>l r. (l, r) \<in> set (rows t) \<Longrightarrow>
          (length (filter notna r) = length (columns t)) = (NA \<notin> set r)"
  proof -
    fix l r
    assume "(l, r) \<in> set (rows t)"
    then have "length r = length (columns t)"
      using assms by (auto simp: rect_def list_all_iff)
    then show "(length (filter notna r) = length (columns t)) = (NA \<notin> set r)"
      using filter_all_length [of notna r] by (auto simp: notna_def)
  qed
  then show ?thesis
    by (auto simp: dropna_def intro!: filter_cong)
qed

text \<open>
  Claim C2. When the file loads, the loading stage (cells 4 to 8) completes, and the table
  bound to \<^verbatim>\<open>galaxies\<close> after it has the columns of the loaded table and exactly its rows
  without a missing value, unchanged and in their original order. Nothing else is done to
  the table between loading and cleaning.
\<close>

theorem cleaning_drops_exactly_incomplete_rows:
  assumes "read_csv L ''COMBO17.csv'' = Inr t" and "rect t"
  shows "snd (exec (loading L) init) = None
       \<and> steps (exec (loading L) init) = [4, 6, 7, 8]
       \<and> galaxies (snd (last (fst (exec (loading L) init))))
           = Some \<lparr>columns = columns t, rows = filter (\<lambda>(l, r). NA \<notin> set r) (rows t)\<rparr>"
proof -
  have "dropna t = \<lparr>columns = columns t, rows = filter (\<lambda>(l, r). NA \<notin> set r) (rows t)\<rparr>"
    using dropna_rows [OF assms(2)] by (simp add: dropna_def)
  then show ?thesis
    using assms(1)
    by (simp add: loading_def steps_def cell4_def cell6_def cell7_def cell8_def attempt_def
        need_def display_def init_def)
qed

theorem cleaning_drops_exactly_incomplete_rows_witness:
  "read_csv demo_lib ''COMBO17.csv'' = Inr demo_table \<and> rect demo_table
   \<and> galaxies (snd (last (fst (exec (loading demo_lib) init))))
       = Some \<lparr>columns = [''Mcz'', ''S280MAG'', ''Rmag''],
               rows = [(0, [Num 0.832, Num (- 18.2), Num 24.9]),
                       (1, [Num 0.5, Num (- 17.1), Num 25.0]),
                       (3, [Num 0.2, Num (- 15.0), Num 25.2]),
                       (4, [Num 1.2, Num (- 19.8), Num 25.5])]\<rparr>"
proof -
  have h1: "read_csv demo_lib ''COMBO17.csv'' = Inr demo_table"
    by (simp add: demo_lib_def)
  have h2: "rect demo_table"
    by (simp add: rect_def demo_table_def)
  show ?thesis
    using cleaning_drops_exactly_incomplete_rows [OF h1 h2] h1 h2
    by (simp add: demo_table_def)
qed

text \<open>
  Claim C5. When \<^verbatim>\<open>read_csv\<close> raises, the run consists of the loading cell alone and ends
  with that exception; the state is still the initial one: \<^verbatim>\<open>galaxies\<close> is unbound, nothing
  has been displayed and no library call has been recorded.
\<close>

theorem load_failure_propagates:
  assumes "read_csv L ''COMBO17.csv'' = Inl e"
  shows "run L g = ([(4, init)], Some e)
       \<and> final L g = init
       \<and> galaxies (final L g) = None \<and> outs (final L g) = [] \<and> calls (final L g) = []"
proof -
  have r: "run L g = ([(4, init)], Some e)"
    using assms by (simp add: run_def notebook_def loading_def cell4_def attempt_def)
  then have "final L g = init" by (simp add: final_def)
  then show ?thesis using r by (simp add: init_def)
qed

theorem load_failure_propagates_witness:
  "read_csv demo_lib_no_file ''COMBO17.csv'' = Inl FileNotFoundError
   \<and> run demo_lib_no_file 0 = ([(4, init)], Some FileNotFoundError)
   \<and> galaxies (final demo_lib_no_file 0) = None"
proof -
  have h: "read_csv demo_lib_no_file ''COMBO17.csv'' = Inl FileNotFoundError"
    by (simp add: demo_lib_no_file_def)
  show ?thesis
    using load_failure_propagates [OF h, of 0] h by auto
qed

lemma getcol_setcol_same:
  assumes "rect t" and "length vs = length (rows t)"
  shows "getcol (setcol t c vs) c = Inr (map (\<lambda>((l, r), v). (l, v)) (zip (rows t) vs))"
proof (cases "index_of c (columns t)")
  case None
  then have "c \<notin> set (columns t)" by (simp add: index_of_None)
  then have i: "index_of c (columns t @ [c]) = Some (length (columns t))"
    by (rule index_of_append_new)
  have "\<And>l r v. ((l, r), v) \<in> set (zip (rows t) vs) \<Longrightarrow> cell_at (r @ [v]) (length (columns t)) = v"
  proof -
    fix l r v
    assume "((l, r), v) \<in> set (zip (rows t) vs)"
    then have "(l, r) \<in> set (rows t)" by (rule set_zip_leftD)
    then have "length r = length (columns t)"
      using assms(1) by (auto simp: rect_def list_all_iff)
    then show "cell_at (r @ [v]) (length (columns t)) = v" by (simp add: cell_at_def nth_append)
  qed
  then show ?thesis using None i
    by (auto simp: getcol_def setcol_def)
next
  case (Some i)
  then have il: "i < length (columns t)" using index_of_Some by fastforce
  have "\<And>l r v. ((l, r), v) \<in> set (zip (rows t) vs) \<Longrightarrow> cell_at (r[i := v]) i = v"
  proof -
    fix l r v
    assume "((l, r), v) \<in> set (zip (rows t) vs)"
    then have "(l, r) \<in> set (rows t)" by (rule set_zip_leftD)
    then have "length r = length (columns t)"
      using assms(1) by (auto simp: rect_def list_all_iff)
    then show "cell_at (r[i := v]) i = v" using il by (simp add: cell_at_def)
  qed
  then show ?thesis using Some
    by (auto simp: getcol_def setcol_def)
qed

lemma zip_map_self:
  "map (\<lambda>((l, r), v). (l, v)) (zip rs (map (\<lambda>(l, r). f l r) rs)) = map (\<lambda>(l, r). (l, f l r)) rs"
  by (induction rs) auto

lemma label_column:
  assumes "rect t" and "getcol t ''Mcz'' = Inr ys"
  shows "getcol (setcol t ''bool'' (map (\<lambda>(l, v). Flag (gt v 0.5)) ys)) ''bool''
           = Inr (map (\<lambda>(l, v). (l, Flag (gt v 0.5))) ys)"
proof -
  obtain i where i: "index_of ''Mcz'' (columns t) = Some i"
    and ys: "ys = map (\<lambda>(l, r). (l, cell_at r i)) (rows t)"
    using assms(2) by (auto simp: getcol_def split: option.splits)
  let ?vs = "map (\<lambda>(l, v). Flag (gt v 0.5)) ys"
  have vs: "?vs = map (\<lambda>(l, r). Flag (gt (cell_at r i) 0.5)) (rows t)"
    by (simp add: ys split_def)
  have "length ?vs = length (rows t)" by (simp add: ys)
  then have "getcol (setcol t ''bool'' ?vs) ''bool''
               = Inr (map (\<lambda>((l, r), v). (l, v)) (zip (rows t) ?vs))"
    using getcol_setcol_same [OF assms(1)] by blast
  also have "map (\<lambda>((l, r), v). (l, v)) (zip (rows t) ?vs)
               = map (\<lambda>(l, r). (l, Flag (gt (cell_at r i) 0.5))) (rows t)"
    unfolding vs by (rule zip_map_self)
  also have "\<dots> = map (\<lambda>(l, v). (l, Flag (gt v 0.5))) ys"
    by (simp add: ys split_def)
  finally show ?thesis .
qed

text \<open>
  Claim C3. Cell 30 adds the column \<^verbatim>\<open>bool\<close>; it has one entry for each row, under the
  row's label, and for a row whose \<^verbatim>\<open>Mcz\<close> is the number \<open>v\<close> the entry is the truth value
  of \<open>0.5 < v\<close>. A row with \<^verbatim>\<open>Mcz\<close> equal to 0.5 gets False.
\<close>

theorem label_is_strict_threshold:
  assumes "galaxies s = Some t" and "rect t" and "getcol t ''Mcz'' = Inr ys"
  shows "\<exists>s' t' bs. cell30 s = Inr s' \<and> galaxies s' = Some t' \<and> getcol t' ''bool'' = Inr bs
           \<and> length bs = length ys
           \<and> (\<forall>i < length ys. fst (bs ! i) = fst (ys ! i)
                \<and> (\<forall>v. snd (ys ! i) = Num v \<longrightarrow> snd (bs ! i) = Flag (0.5 < v))
                \<and> (snd (ys ! i) = Num 0.5 \<longrightarrow> snd (bs ! i) = Flag False))"
proof -
  let ?bs = "map (\<lambda>(l, v). (l, Flag (gt v 0.5))) ys"
  let ?t' = "setcol t ''bool'' (map (\<lambda>(l, v). Flag (gt v 0.5)) ys)"
  have c: "cell30 s = Inr (s\<lparr>galaxies := Some ?t'\<rparr>)"
    using assms(1,3) by (simp add: cell30_def attempt_def need_def)
  have g: "getcol ?t' ''bool'' = Inr ?bs"
    using label_column [OF assms(2,3)] .
  have "\<forall>i < length ys. fst (?bs ! i) = fst (ys ! i)
          \<and> (\<forall>v. snd (ys ! i) = Num v \<longrightarrow> snd (?bs ! i) = Flag (0.5 < v))
          \<and> (snd (ys ! i) = Num 0.5 \<longrightarrow> snd (?bs ! i) = Flag False)"
    by (auto simp: split_def gt_def)
  then show ?thesis using c g by auto
qed

theorem label_is_strict_threshold_witness:
  "galaxies (init\<lparr>galaxies := Some demo_table\<rparr> :: cell kernel) = Some demo_table
   \<and> rect demo_table
   \<and> getcol demo_table ''Mcz''
       = Inr [(0, Num 0.832), (1, Num 0.5), (2, Num 0.3), (3, Num 0.2), (4, Num 1.2)]
   \<and> (\<exists>s' t' bs. cell30 (init\<lparr>galaxies := Some demo_table\<rparr> :: cell kernel) = Inr s'
         \<and> galaxies s' = Some t' \<and> getcol t' ''bool'' = Inr bs
         \<and> bs ! 0 = (0, Flag True) \<and> bs ! 1 = (1, Flag False) \<and> bs ! 3 = (3, Flag False))"
proof -
  let ?s = "init\<lparr>galaxies := Some demo_table\<rparr> :: cell kernel"
  let ?ys = "[(0, Num 0.832), (1, Num 0.5), (2, Num 0.3), (3, Num 0.2), (4, Num 1.2)] :: nat series"
  have h1: "galaxies ?s = Some demo_table" by simp
  have h2: "rect demo_table" by (simp add: rect_def demo_table_def)
  have h3: "getcol demo_table ''Mcz'' = Inr ?ys"
    by (simp add: getcol_def demo_table_def cell_at_def)
  from label_is_strict_threshold [OF h1 h2 h3]
  obtain s' t' bs where c: "cell30 ?s = Inr s'" "galaxies s' = Some t'" "getcol t' ''bool'' = Inr bs"
    and a: "\<forall>i < length ?ys. fst (bs ! i) = fst (?ys ! i)
                \<and> (\<forall>v. snd (?ys ! i) = Num v \<longrightarrow> snd (bs ! i) = Flag (0.5 < v))
                \<and> (snd (?ys ! i) = Num 0.5 \<longrightarrow> snd (bs ! i) = Flag False)"
    by blast
  have l0: "0 < length ?ys" and l1: "1 < length ?ys" and l3: "3 < length ?ys" by simp_all
  have "fst (bs ! 0) = 0" using a [rule_format, OF l0] by simp
  moreover have "snd (bs ! 0) = Flag ((0.5::real) < 0.832)"
    using a [rule_format, OF l0, THEN conjunct2, THEN conjunct1, rule_format, of "0.832"] by simp
  ultimately have b0: "bs ! 0 = (0, Flag True)" by (simp add: prod_eq_iff)
  have "fst (bs ! 1) = 1" using a [rule_format, OF l1] by simp
  moreover have "snd (bs ! 1) = Flag False"
    using a [rule_format, OF l1, THEN conjunct2, THEN conjunct2] by simp
  ultimately have b1: "bs ! 1 = (1, Flag False)" by (simp add: prod_eq_iff)
  have "fst (bs ! 3) = 3" using a [rule_format, OF l3] by simp
  moreover have "snd (bs ! 3) = Flag ((0.5::real) < 0.2)"
    using a [rule_format, OF l3, THEN conjunct2, THEN conjunct1, rule_format, of "0.2"] by simp
  ultimately have b3: "bs ! 3 = (3, Flag False)" by (simp add: prod_eq_iff)
  note b0 b1 b3
  then have "bs ! 0 = (0, Flag True) \<and> bs ! 1 = (1, Flag False) \<and> bs ! 3 = (3, Flag False)" by simp
  then show ?thesis using c h1 h2 h3 by blast
qed

lemma filter_key_distinct:
  "distinct (map fst m) \<Longrightarrow> (k, v) \<in> set m \<Longrightarrow> filter (\<lambda>(l, w). l = k) m = [(k, v)]"
proof (induction m)
  case Nil
  then show ?case by simp
next
  case (Cons a m)
  obtain l w where a: "a = (l, w)" by (cases a)
  show ?case
  proof (cases "l = k")
    case True
    then have "k \<notin> fst ` set m" using Cons.prems(1) a by simp
    then have "filter (\<lambda>(l, w). l = k) m = []"
      by (force simp: filter_empty_conv)
    moreover have "w = v" using Cons.prems True a \<open>k \<notin> fst ` set m\<close> by force
    ultimately show ?thesis using True a by simp
  next
    case False
    then show ?thesis using Cons a by auto
  qed
qed

lemma series_at_distinct:
  "distinct (map fst m) \<Longrightarrow> (k, v) \<in> set m \<Longrightarrow> series_at m k = Inr v"
  by (simp add: series_at_def filter_key_distinct)

lemma preds_loop_selects:
  assumes "corr L t = Inr c" and "getcol c ''Mcz'' = Inr m" and "distinct (map fst m)"
  shows "set es \<subseteq> set m \<Longrightarrow> galaxies s = Some t \<Longrightarrow> preds s = Some p \<Longrightarrow>
         preds_loop L (map fst es) s
           = Inr (s\<lparr>preds := Some (p @ map fst (filter (\<lambda>(k, v). gt (abs_cell v) 0.5) es))\<rparr>)"
proof (induction es arbitrary: s p)
  case Nil
  then show ?case by simp
next
  case (Cons a es)
  obtain k v where a: "a = (k, v)" by (cases a)
  have at: "series_at m k = Inr v"
    using Cons.prems(1) a assms(3) by (simp add: series_at_distinct)
  show ?case
  proof (cases "gt (abs_cell v) 0.5")
    case True
    have "preds_loop L (map fst es) (s\<lparr>preds := Some (p @ [k])\<rparr>)
            = Inr (s\<lparr>preds := Some (p @ [k]), preds := Some ((p @ [k]) @ map fst (filter (\<lambda>(k, v). gt (abs_cell v) 0.5) es))\<rparr>)"
      using Cons.IH [of "s\<lparr>preds := Some (p @ [k])\<rparr>" "p @ [k]"] Cons.prems by simp
    then show ?thesis
      using True a at assms(1,2) Cons.prems(2,3) by (simp add: need_def)
  next
    case False
    then show ?thesis
      using a at assms(1,2) Cons.prems Cons.IH [of s p] by (simp add: need_def)
  qed
qed

lemma gt_abs_cell: "gt (abs_cell v) k \<longleftrightarrow> (\<exists>r. num_of v = Some r \<and> k < \<bar>r\<bar>)"
  by (cases v) (auto simp: gt_def abs_cell_def)

lemma cell10_selects:
  assumes "galaxies s = Some t" and "corr L t = Inr c" and "getcol c ''Mcz'' = Inr m"
    and "distinct (map fst m)"
  shows "cell10 L s = Inr (s\<lparr>preds := Some (map fst (filter (\<lambda>(k, v). gt (abs_cell v) 0.5) m))\<rparr>)"
  using preds_loop_selects [OF assms(2,3,4), of m "s\<lparr>preds := Some []\<rparr>" "[]"] assms
  by (simp add: cell10_def attempt_def need_def)

text \<open>
  Claim C4. Let \<open>m\<close> be the \<^verbatim>\<open>Mcz\<close> column of the correlation matrix of the table, with one
  entry for each column of the table. Cell 10 completes and binds \<^verbatim>\<open>preds\<close> to a list whose
  elements are exactly the columns whose entry is a number of absolute value above 0.5.
\<close>

theorem preds_are_columns_above_threshold:
  assumes "galaxies s = Some t" and "corr L t = Inr c" and "getcol c ''Mcz'' = Inr m"
    and "map fst m = columns t" and "distinct (columns t)"
  shows "\<exists>s' p. cell10 L s = Inr s' \<and> preds s' = Some p
           \<and> set p = {k \<in> set (columns t). \<exists>v r. (k, v) \<in> set m \<and> num_of v = Some r \<and> 0.5 < \<bar>r\<bar>}"
proof -
  let ?p = "map fst (filter (\<lambda>(k, v). gt (abs_cell v) 0.5) m)"
  have d: "distinct (map fst m)" using assms(4,5) by simp
  have c: "cell10 L s = Inr (s\<lparr>preds := Some ?p\<rparr>)"
    using cell10_selects [OF assms(1,2,3) d] .
  have cols: "set (columns t) = fst ` set m"
    using assms(4) [symmetric] by simp
  have mem: "\<And>k. k \<in> set ?p \<longleftrightarrow> (\<exists>v. (k, v) \<in> set m \<and> gt (abs_cell v) 0.5)"
    by force
  have "\<And>k. k \<in> set ?p \<longleftrightarrow>
          k \<in> set (columns t) \<and> (\<exists>v r. (k, v) \<in> set m \<and> num_of v = Some r \<and> 0.5 < \<bar>r\<bar>)"
  proof -
    fix k
    have "(\<exists>v. (k, v) \<in> set m \<and> gt (abs_cell v) 0.5)
            \<longleftrightarrow> (\<exists>v r. (k, v) \<in> set m \<and> num_of v = Some r \<and> 0.5 < \<bar>r\<bar>)"
      by (simp only: gt_abs_cell) blast
    then have "k \<in> set ?p \<longleftrightarrow> (\<exists>v r. (k, v) \<in> set m \<and> num_of v = Some r \<and> 0.5 < \<bar>r\<bar>)"
      using mem [of k] by (rule trans [rotated])
    moreover have "(\<exists>v r. (k, v) \<in> set m \<and> num_of v = Some r \<and> 0.5 < \<bar>r\<bar>) \<Longrightarrow> k \<in> set (columns t)"
      unfolding cols by force
    ultimately show "k \<in> set ?p \<longleftrightarrow>
          k \<in> set (columns t) \<and> (\<exists>v r. (k, v) \<in> set m \<and> num_of v = Some r \<and> 0.5 < \<bar>r\<bar>)"
      by blast
  qed
  then have "set ?p = {k \<in> set (columns t). \<exists>v r. (k, v) \<in> set m \<and> num_of v = Some r \<and> 0.5 < \<bar>r\<bar>}"
    by blast
  then show ?thesis using c by simp
qed

theorem preds_are_columns_above_threshold_witness:
  "galaxies (init\<lparr>galaxies := Some demo_table\<rparr> :: cell kernel) = Some demo_table
   \<and> distinct (columns demo_table)
   \<and> (\<exists>c m. corr demo_lib demo_table = Inr c \<and> getcol c ''Mcz'' = Inr m
         \<and> m = [(''Mcz'', Num 1), (''S280MAG'', Num (- 0.8)), (''Rmag'', Num 0.5)]
         \<and> map fst m = columns demo_table)
   \<and> (\<exists>s' p. cell10 demo_lib (init\<lparr>galaxies := Some demo_table\<rparr>) = Inr s' \<and> preds s' = Some p
         \<and> ''Mcz'' \<in> set p \<and> ''S280MAG'' \<in> set p \<and> ''Rmag'' \<notin> set p)"
proof -
  let ?s = "init\<lparr>galaxies := Some demo_table\<rparr> :: cell kernel"
  let ?c = "\<lparr>columns = columns demo_table,
             rows = map (\<lambda>a. (a, map (\<lambda>b. Num (demo_r a b)) (columns demo_table))) (columns demo_table)\<rparr>"
  let ?m = "[(''Mcz'', Num 1), (''S280MAG'', Num (- 0.8)), (''Rmag'', Num 0.5)] :: string series"
  have h1: "galaxies ?s = Some demo_table" by simp
  have h2: "corr demo_lib demo_table = Inr ?c" by (simp add: demo_lib_def demo_corr_def)
  have h3: "getcol ?c ''Mcz'' = Inr ?m"
    by (simp add: getcol_def demo_table_def cell_at_def demo_r_def)
  have h4: "map fst ?m = columns demo_table" by (simp add: demo_table_def)
  have h5: "distinct (columns demo_table)" by (simp add: demo_table_def)
  from preds_are_columns_above_threshold [OF h1 h2 h3 h4 h5]
  obtain s' p where c: "cell10 demo_lib ?s = Inr s'" "preds s' = Some p"
    and p: "set p = {k \<in> set (columns demo_table).
                      \<exists>v r. (k, v) \<in> set ?m \<and> num_of v = Some r \<and> 0.5 < \<bar>r\<bar>}"
    by blast
  have "''Mcz'' \<in> set p" and "''S280MAG'' \<in> set p" and "''Rmag'' \<notin> set p"
    unfolding p by (simp_all add: demo_table_def)
  then show ?thesis using c h1 h2 h3 h4 h5 by blast
qed

lemma clone_update: "clone e = e\<lparr>model := None\<rparr>"
  by (cases e) (simp add: clone_def)

lemma cross_val_folds_clone:
  "cross_val_folds L g (e\<lparr>model := m\<rparr>) X Y k folds = cross_val_folds L g e X Y k folds"
  by (induction folds) (simp_all add: clone_def cong: sum.case_cong)

lemma cross_val_score_clone:
  "cross_val_score L g (e\<lparr>model := m\<rparr>) X Y k = cross_val_score L g e X Y k"
  by (simp add: cross_val_score_def cross_val_folds_clone)

lemma cross_val_folds_refit:
  "cross_val_folds L g e X Y k folds = Inr scs \<Longrightarrow>
   length scs = length folds
   \<and> (\<forall>j < length folds. \<exists>mj.
         fit L (check_random_state (random_state (params e)) g) (params e)
           (fold_train k (folds ! j) X) (fold_train k (folds ! j) Y) = Inr mj
         \<and> score L mj (fold_test k (folds ! j) X) (fold_test k (folds ! j) Y) = Inr (scs ! j))"
proof (induction folds arbitrary: scs)
  case Nil
  then show ?case by simp
next
  case (Cons i folds)
  from Cons.prems obtain mi v vs
    where f: "fit L (check_random_state (random_state (params e)) g) (params e)
                (fold_train k i X) (fold_train k i Y) = Inr mi"
      and s: "score L mi (fold_test k i X) (fold_test k i Y) = Inr v"
      and r: "cross_val_folds L g e X Y k folds = Inr vs"
      and scs: "scs = v # vs"
    by (auto simp: clone_def split: sum.splits)
  have ih: "length vs = length folds
            \<and> (\<forall>j < length folds. \<exists>mj.
                  fit L (check_random_state (random_state (params e)) g) (params e)
                    (fold_train k (folds ! j) X) (fold_train k (folds ! j) Y) = Inr mj
                  \<and> score L mj (fold_test k (folds ! j) X) (fold_test k (folds ! j) Y) = Inr (vs ! j))"
    using Cons.IH [OF r] .
  show ?case
  proof (intro conjI allI impI)
    show "length scs = length (i # folds)" using ih scs by simp
  next
    fix j
    assume "j < length (i # folds)"
    then show "\<exists>mj. fit L (check_random_state (random_state (params e)) g) (params e)
                   (fold_train k ((i # folds) ! j) X) (fold_train k ((i # folds) ! j) Y) = Inr mj
                 \<and> score L mj (fold_test k ((i # folds) ! j) X) (fold_test k ((i # folds) ! j) Y)
                     = Inr (scs ! j)"
      using f s ih scs by (cases j) auto
  qed
qed

lemma folds_within:
  "set (fold_train k i xs) \<union> set (fold_test k i xs) \<subseteq> set xs"
proof -
  have "set (fold_test k i xs) \<subseteq> set xs"
    unfolding fold_test_def by (meson set_take_subset set_drop_subset subset_trans)
  moreover have "set (fold_train k i xs) \<subseteq> set xs"
    unfolding fold_train_def using set_take_subset set_drop_subset by fastforce
  ultimately show ?thesis by simp
qed

lemma report_cross_val_cell:
  assumes "est s = Some e" and "x_test s = Some X" and "y_test s = Some Y"
  shows "report (cross_val_cell L g name est) s
           = (case cross_val_score L g e X Y 5 of Inl err \<Rightarrow> Inl err | Inr sc \<Rightarrow> Inr [Scores sc])"
  using assms
  by (simp add: report_def cross_val_cell_def attempt_def need_def display_def record_call_def
      split: sum.splits)

text \<open>
  Claim C6. Let \<open>X\<close> and \<open>Y\<close> be the test partition. What cell 19 displays is the
  cross-validation of \<^verbatim>\<open>abr\<close> on \<open>X\<close> and \<open>Y\<close> with five folds, and it stays the same when
  the model stored in \<^verbatim>\<open>abr\<close> by the earlier \<^verbatim>\<open>fit\<close> and the training partition are
  replaced by anything; the same holds for cell 26 and \<^verbatim>\<open>grad_boost\<close>. Every score of
  such a cross-validation is the score, on one fold, of a model that the library fits
  for the estimator's parameters on the other folds, and the folds hold samples of \<open>X\<close>
  and \<open>Y\<close> only.
\<close>

theorem cv_scores_refit_clones_on_test_folds:
  assumes "x_test s = Some X" and "y_test s = Some Y"
  shows "(\<forall>a. abr s = Some a \<longrightarrow>
            report (cell19 L g) s
              = (case cross_val_score L g (clone a) X Y 5 of
                   Inl err \<Rightarrow> Inl err | Inr sc \<Rightarrow> Inr [Scores sc])
          \<and> report (cell19 L g) (s\<lparr>abr := Some (a\<lparr>model := m\<rparr>), x_train := xt, y_train := yt\<rparr>)
              = report (cell19 L g) s)
       \<and> (\<forall>b. grad_boost s = Some b \<longrightarrow>
            report (cell26 L g) s
              = (case cross_val_score L g (clone b) X Y 5 of
                   Inl err \<Rightarrow> Inl err | Inr sc \<Rightarrow> Inr [Scores sc])
          \<and> report (cell26 L g) (s\<lparr>grad_boost := Some (b\<lparr>model := m\<rparr>), x_train := xt, y_train := yt\<rparr>)
              = report (cell26 L g) s)
       \<and> (\<forall>e scs. cross_val_score L g e X Y 5 = Inr scs \<longrightarrow>
            length scs = 5
          \<and> (\<forall>i < 5. \<exists>mi.
                fit L (check_random_state (random_state (params e)) g) (params e)
                  (fold_train 5 i X) (fold_train 5 i Y) = Inr mi
              \<and> score L mi (fold_test 5 i X) (fold_test 5 i Y) = Inr (scs ! i)))
       \<and> (\<forall>i. set (fold_train 5 i X) \<union> set (fold_test 5 i X) \<subseteq> set X
              \<and> set (fold_train 5 i Y) \<union> set (fold_test 5 i Y) \<subseteq> set Y)"
proof (intro conjI allI impI)
  fix a
  assume a: "abr s = Some a"
  have c: "cross_val_score L g (clone a) X Y 5 = cross_val_score L g a X Y 5"
    unfolding clone_update by (rule cross_val_score_clone)
  show "report (cell19 L g) s
          = (case cross_val_score L g (clone a) X Y 5 of
               Inl err \<Rightarrow> Inl err | Inr sc \<Rightarrow> Inr [Scores sc])"
    unfolding c cell19_def using a assms by (rule report_cross_val_cell)
  have "report (cell19 L g) (s\<lparr>abr := Some (a\<lparr>model := m\<rparr>), x_train := xt, y_train := yt\<rparr>)
          = (case cross_val_score L g (a\<lparr>model := m\<rparr>) X Y 5 of
               Inl err \<Rightarrow> Inl err | Inr sc \<Rightarrow> Inr [Scores sc])"
    unfolding cell19_def using assms by (intro report_cross_val_cell) simp_all
  also have "\<dots> = report (cell19 L g) s"
    unfolding cross_val_score_clone cell19_def
    using report_cross_val_cell [where est = abr and name = "''abr''" and L = L and g = g, OF a assms] by simp
  finally show "report (cell19 L g) (s\<lparr>abr := Some (a\<lparr>model := m\<rparr>), x_train := xt, y_train := yt\<rparr>)
                  = report (cell19 L g) s" .
next
  fix b
  assume b: "grad_boost s = Some b"
  have c: "cross_val_score L g (clone b) X Y 5 = cross_val_score L g b X Y 5"
    unfolding clone_update by (rule cross_val_score_clone)
  show "report (cell26 L g) s
          = (case cross_val_score L g (clone b) X Y 5 of
               Inl err \<Rightarrow> Inl err | Inr sc \<Rightarrow> Inr [Scores sc])"
    unfolding c cell26_def using b assms by (rule report_cross_val_cell)
  have "report (cell26 L g) (s\<lparr>grad_boost := Some (b\<lparr>model := m\<rparr>), x_train := xt, y_train := yt\<rparr>)
          = (case cross_val_score L g (b\<lparr>model := m\<rparr>) X Y 5 of
               Inl err \<Rightarrow> Inl err | Inr sc \<Rightarrow> Inr [Scores sc])"
    unfolding cell26_def using assms by (intro report_cross_val_cell) simp_all
  also have "\<dots> = report (cell26 L g) s"
    unfolding cross_val_score_clone cell26_def
    using report_cross_val_cell [where est = grad_boost and name = "''grad_boost''" and L = L and g = g, OF b assms] by simp
  finally show "report (cell26 L g) (s\<lparr>grad_boost := Some (b\<lparr>model := m\<rparr>), x_train := xt, y_train := yt\<rparr>)
                  = report (cell26 L g) s" .
next
  fix e scs
  assume r: "cross_val_score L g e X Y 5 = Inr scs"
  then have f: "cross_val_folds L g e X Y 5 [0..<5] = Inr scs"
    by (simp add: cross_val_score_def split: if_splits)
  show "length scs = 5" using cross_val_folds_refit [OF f] by simp
  fix i :: nat
  assume "i < 5"
  then show "\<exists>mi. fit L (check_random_state (random_state (params e)) g) (params e)
                 (fold_train 5 i X) (fold_train 5 i Y) = Inr mi
               \<and> score L mi (fold_test 5 i X) (fold_test 5 i Y) = Inr (scs ! i)"
    using cross_val_folds_refit [OF f, THEN conjunct2, rule_format, of i] by simp
next
  fix i
  show "set (fold_train 5 i X) \<union> set (fold_test 5 i X) \<subseteq> set X"
    by (rule folds_within)
  show "set (fold_train 5 i Y) \<union> set (fold_test 5 i Y) \<subseteq> set Y"
    by (rule folds_within)
qed

theorem cv_scores_refit_clones_on_test_folds_witness:
  "abr (init\<lparr>x_test := Some [[Num 1], [Num 2], [Num 3], [Num 4], [Num 5]],
             y_test := Some [(0, Num 0.7), (1, Num 0.7), (2, Num 0.2), (3, Num 0.9), (4, Num 0.7)],
             abr := Some \<lparr>params = AdaBoostRegressor (Some 42), model = Some (Num 0.3)\<rparr>,
             grad_boost := Some \<lparr>params = XGBRegressor (Some 42) ''reg:squarederror'',
                                  model = Some (Num 0.4)\<rparr>\<rparr> :: cell kernel)
     = Some \<lparr>params = AdaBoostRegressor (Some 42), model = Some (Num 0.3)\<rparr>
   \<and> report (cell19 demo_lib 0)
        (init\<lparr>x_test := Some [[Num 1], [Num 2], [Num 3], [Num 4], [Num 5]],
              y_test := Some [(0, Num 0.7), (1, Num 0.7), (2, Num 0.2), (3, Num 0.9), (4, Num 0.7)],
              abr := Some \<lparr>params = AdaBoostRegressor (Some 42), model = Some (Num 0.3)\<rparr>,
              grad_boost := Some \<lparr>params = XGBRegressor (Some 42) ''reg:squarederror'',
                                   model = Some (Num 0.4)\<rparr>\<rparr>)
       = Inr [Scores [1, 1, 0, 0, 1]]
   \<and> report (cell19 demo_lib 0)
        (init\<lparr>x_test := Some [[Num 1], [Num 2], [Num 3], [Num 4], [Num 5]],
              y_test := Some [(0, Num 0.7), (1, Num 0.7), (2, Num 0.2), (3, Num 0.9), (4, Num 0.7)],
              abr := Some \<lparr>params = AdaBoostRegressor (Some 42), model = None\<rparr>,
              grad_boost := Some \<lparr>params = XGBRegressor (Some 42) ''reg:squarederror'',
                                   model = Some (Num 0.4)\<rparr>,
              x_train := Some [[Num 9]], y_train := Some [(9, Num 0.1)]\<rparr>)
       = Inr [Scores [1, 1, 0, 0, 1]]
   \<and> report (cell26 demo_lib 0)
        (init\<lparr>x_test := Some [[Num 1], [Num 2], [Num 3], [Num 4], [Num 5]],
              y_test := Some [(0, Num 0.7), (1, Num 0.7), (2, Num 0.2), (3, Num 0.9), (4, Num 0.7)],
              abr := Some \<lparr>params = AdaBoostRegressor (Some 42), model = Some (Num 0.3)\<rparr>,
              grad_boost := Some \<lparr>params = XGBRegressor (Some 42) ''reg:squarederror'',
                                   model = Some (Num 0.4)\<rparr>\<rparr>)
       = Inr [Scores [1, 1, 0, 0, 1]]
   \<and> (\<exists>m2. fit demo_lib (Seeded 42) (AdaBoostRegressor (Some 42))
               [[Num 1], [Num 2], [Num 4], [Num 5]]
               [(0, Num 0.7), (1, Num 0.7), (3, Num 0.9), (4, Num 0.7)] = Inr m2
             \<and> score demo_lib m2 [[Num 3]] [(2, Num 0.2)] = Inr 0)"
proof -
  let ?X = "[[Num 1], [Num 2], [Num 3], [Num 4], [Num 5]] :: matrix"
  let ?Y = "[(0, Num 0.7), (1, Num 0.7), (2, Num 0.2), (3, Num 0.9), (4, Num 0.7)] :: nat series"
  let ?a = "\<lparr>params = AdaBoostRegressor (Some 42), model = Some (Num 0.3)\<rparr> :: cell fitted"
  let ?b = "\<lparr>params = XGBRegressor (Some 42) ''reg:squarederror'', model = Some (Num 0.4)\<rparr> :: cell fitted"
  let ?s = "init\<lparr>x_test := Some ?X, y_test := Some ?Y, abr := Some ?a, grad_boost := Some ?b\<rparr> :: cell kernel"
  have h1: "x_test ?s = Some ?X" by simp
  have h2: "y_test ?s = Some ?Y" by simp
  have a: "abr ?s = Some ?a" by simp
  have b: "grad_boost ?s = Some ?b" by simp
  have ca: "cross_val_score demo_lib 0 (clone ?a) ?X ?Y 5 = Inr [1, 1, 0, 0, 1]" by code_simp
  have cb: "cross_val_score demo_lib 0 (clone ?b) ?X ?Y 5 = Inr [1, 1, 0, 0, 1]" by code_simp
  have f2: "fold_train 5 2 ?X = [[Num 1], [Num 2], [Num 4], [Num 5]]
            \<and> fold_test 5 2 ?X = [[Num 3]]
            \<and> fold_train 5 2 ?Y = [(0, Num 0.7), (1, Num 0.7), (3, Num 0.9), (4, Num 0.7)]
            \<and> fold_test 5 2 ?Y = [(2, Num 0.2)]"
    by code_simp
  note t = cv_scores_refit_clones_on_test_folds [OF h1 h2, where L = demo_lib and g = 0
      and m = None and xt = "Some [[Num 9]]" and yt = "Some [(9, Num 0.1)]"]
  have r19: "report (cell19 demo_lib 0) ?s = Inr [Scores [1, 1, 0, 0, 1]]"
    using t [THEN conjunct1, rule_format, OF a] ca by simp
  have r19': "report (cell19 demo_lib 0)
                (?s\<lparr>abr := Some (?a\<lparr>model := None\<rparr>), x_train := Some [[Num 9]],
                     y_train := Some [(9, Num 0.1)]\<rparr>) = Inr [Scores [1, 1, 0, 0, 1]]"
    using t [THEN conjunct1, rule_format, OF a] ca by simp
  have r26: "report (cell26 demo_lib 0) ?s = Inr [Scores [1, 1, 0, 0, 1]]"
    using t [THEN conjunct2, THEN conjunct1, rule_format, OF b] cb by simp
  have "\<exists>m2. fit demo_lib (check_random_state (random_state (params (clone ?a))) 0) (params (clone ?a))
               (fold_train 5 2 ?X) (fold_train 5 2 ?Y) = Inr m2
             \<and> score demo_lib m2 (fold_test 5 2 ?X) (fold_test 5 2 ?Y) = Inr ([1, 1, 0, 0, 1] ! 2)"
    using t [THEN conjunct2, THEN conjunct2, THEN conjunct1, rule_format, OF ca, THEN conjunct2,
        rule_format, of 2] by simp
  then have f: "\<exists>m2. fit demo_lib (Seeded 42) (AdaBoostRegressor (Some 42))
               [[Num 1], [Num 2], [Num 4], [Num 5]]
               [(0, Num 0.7), (1, Num 0.7), (3, Num 0.9), (4, Num 0.7)] = Inr m2
             \<and> score demo_lib m2 [[Num 3]] [(2, Num 0.2)] = Inr 0"
    unfolding f2 [THEN conjunct1] f2 [THEN conjunct2, THEN conjunct1]
      f2 [THEN conjunct2, THEN conjunct2, THEN conjunct1] f2 [THEN conjunct2, THEN conjunct2, THEN conjunct2]
    by (simp add: clone_def)
  show ?thesis using a r19 r19' r26 f by (simp add: init_def)
qed

lemma check_seeded: "r \<noteq> None \<Longrightarrow> check_random_state r g1 = check_random_state r g2"
  by (cases r) auto

lemma exec_cong:
  assumes "list_all2 (\<lambda>(n, c) (n', d). n = n' \<and> keeps I c \<and> (\<forall>s. I s \<longrightarrow> c s = d s)) cs ds"
    and "I s"
  shows "exec cs s = exec ds s"
  using assms
proof (induction arbitrary: s rule: list_all2_induct)
  case Nil
  then show ?case by simp
next
  case (Cons a cs b ds)
  obtain n c where a: "a = (n, c)" by (cases a)
  obtain n' d where b: "b = (n', d)" by (cases b)
  have n: "n' = n" and k: "keeps I c" and e: "c s = d s"
    using Cons.hyps(1) Cons.prems a b by auto
  show ?case
  proof (cases "c s")
    case (Inl p)
    have d: "d s = Inl p" using e Inl by simp
    show ?thesis unfolding a b n by (cases p) (simp add: Inl d)
  next
    case (Inr s')
    have "I s'" using k Cons.prems Inr by (auto simp: keeps_def dest!: spec [of _ s])
    then have i: "exec cs s' = exec ds s'" by (rule Cons.IH)
    have d: "d s = Inr s'" using e Inr by simp
    show ?thesis unfolding a b n by (simp add: Inr d i)
  qed
qed

lemma exec_invariant_last:
  assumes "\<forall>(n, c) \<in> set cs. keeps I c" and "I s"
  shows "I (last (s # map snd (fst (exec cs s))))"
proof (cases "fst (exec cs s) = []")
  case True
  then show ?thesis using assms(2) by simp
next
  case False
  then have "last (fst (exec cs s)) \<in> set (fst (exec cs s))" by simp
  then have "I (snd (last (fst (exec cs s))))"
    using exec_invariant [OF assms] by (auto simp: split_def)
  then show ?thesis using False by (simp add: last_map)
qed

lemma unchanged_keeps: "unchanged f c \<Longrightarrow> keeps (\<lambda>s. P (f s)) c"
  by (simp add: unchanged_def keeps_def)

lemma last_append_state: "last (a # xs @ ys) = last (last (a # xs) # ys)"
  by (cases ys) auto

lemma after_attempt:
  "after (attempt s r k) = (case r of Inl e \<Rightarrow> s | Inr v \<Rightarrow> after (k v))"
  by (simp add: attempt_def split: sum.splits)

lemma preds_loop_frame: "(after (preds_loop L inds s))\<lparr>preds := None\<rparr> = s\<lparr>preds := None\<rparr>"
proof (induction inds arbitrary: s)
  case Nil
  then show ?case by simp
next
  case (Cons ind inds)
  have r: "(after (preds_loop L inds (s\<lparr>preds := q\<rparr>)))\<lparr>preds := None\<rparr> = s\<lparr>preds := None\<rparr>" for q
    using Cons.IH [of "s\<lparr>preds := q\<rparr>"] by simp
  show ?case
    using Cons.IH [of s] r
    by (simp add: need_def split: sum.splits option.splits)
qed

lemma cell10_frame: "(after (cell10 L s))\<lparr>preds := None\<rparr> = s\<lparr>preds := None\<rparr>"
  using preds_loop_frame [of L _ "s\<lparr>preds := Some []\<rparr>"]
  by (simp add: cell10_def need_def Let_def after_attempt split: sum.splits option.splits)

lemma unchanged_cell10:
  assumes "\<And>s q. f (s\<lparr>preds := q\<rparr>) = f s"
  shows "unchanged f (cell10 L)"
proof -
  have "f (after (cell10 L s)) = f s" for s
    using assms [of None "after (cell10 L s)"] assms [of None s] cell10_frame [of L s] by simp
  then show ?thesis by (simp add: unchanged_def)
qed

lemmas cell_unfold = cell4_def cell6_def cell7_def cell8_def cell11_def cell13_def cell15_def
  cell16_def cell17_def cell18_def cell19_def cell21_def cell22_def cell23_def cell25_def cell26_def
  cell28_def cell30_def cell31_def cell32_def cell33_def cell34_def cell35_def cell36_def cell37_def
  cell38_def cell39_def cell40_def cross_val_cell_def score_cell_def metric_cell_def fit_call_def
  need_def fitted_model_def display_def record_call_def shown_as_def Let_def

lemmas outcome_splits = sum.splits option.splits prod.splits

lemma seeded_cong:
  "abr s' = abr s \<Longrightarrow> gs s' = gs s \<Longrightarrow> grad_boost s' = grad_boost s \<Longrightarrow> seeded s' = seeded s"
  by (simp add: seeded_def)

lemma keeps_seeded_cell10: "keeps seeded (cell10 L)"
proof -
  have "abr (after (cell10 L s)) = abr s \<and> gs (after (cell10 L s)) = gs s
          \<and> grad_boost (after (cell10 L s)) = grad_boost s" for s
    using unchanged_cell10 [of abr L] unchanged_cell10 [of gs L] unchanged_cell10 [of grad_boost L]
    by (simp add: unchanged_def)
  then have "seeded (after (cell10 L s)) = seeded s" for s
    by (intro seeded_cong) simp_all
  then show ?thesis by (simp add: keeps_def)
qed

lemma keeps_seeded_plain:
  "keeps seeded (cell4 L)" "keeps seeded cell6" "keeps seeded cell7" "keeps seeded cell8"
  "keeps seeded (cell11 L)" "keeps seeded cell13" "keeps seeded cell15" "keeps seeded cell16"
  "keeps seeded (cell17 L g)" "keeps seeded (cell19 L g)" "keeps seeded (cell23 L)"
  "keeps seeded (cell26 L g)"
  by (simp_all add: keeps_def seeded_def cell_unfold after_attempt split: outcome_splits)

lemma keeps_seeded_fits:
  "keeps seeded (cell18 L g)" "keeps seeded cell21" "keeps seeded (cell22 L g)"
  "keeps seeded (cell25 L g)"
  by (auto simp: keeps_def seeded_def cell_unfold after_attempt split: outcome_splits)

lemma same_cell17: "cell17 L g1 s = cell17 L g2 s"
  by (simp add: cell17_def)

lemma same_cell18: "cell18 L g1 s = cell18 L g2 s"
  by (simp add: cell18_def fit_call_def)

lemma same_cell25: "cell25 L g1 s = cell25 L g2 s"
  by (simp add: cell25_def fit_call_def)

lemma same_cross_val_folds:
  assumes "random_state (params e) \<noteq> None"
  shows "cross_val_folds L g1 e X Y k folds = cross_val_folds L g2 e X Y k folds"
proof -
  have c: "check_random_state (random_state (params (clone e))) g1
             = check_random_state (random_state (params (clone e))) g2"
    using assms check_seeded by (simp add: clone_def)
  show ?thesis by (induction folds) (simp_all add: c cong: sum.case_cong)
qed

lemma same_cross_val:
  assumes "\<And>e. est s = Some e \<Longrightarrow> random_state (params e) \<noteq> None"
  shows "cross_val_cell L g1 name est s = cross_val_cell L g2 name est s"
proof (cases "est s")
  case None
  then show ?thesis by (simp add: cross_val_cell_def need_def attempt_def)
next
  case (Some e)
  then have "random_state (params e) \<noteq> None" by (rule assms)
  then have "cross_val_score L g1 e X Y k = cross_val_score L g2 e X Y k" for X Y k
    unfolding cross_val_score_def by (simp add: same_cross_val_folds [of e L g1 X Y k _ g2])
  then show ?thesis using Some
    by (simp add: cross_val_cell_def need_def attempt_def Let_def split: option.splits)
qed

lemma same_cell19: "seeded s \<Longrightarrow> cell19 L g1 s = cell19 L g2 s"
  unfolding cell19_def by (rule same_cross_val) (simp add: seeded_def)

lemma same_cell26: "seeded s \<Longrightarrow> cell26 L g1 s = cell26 L g2 s"
  unfolding cell26_def by (rule same_cross_val) (simp add: seeded_def)

lemma same_cell22: "seeded s \<Longrightarrow> cell22 L g1 s = cell22 L g2 s"
proof (cases "gs s")
  case None
  then show ?thesis by (simp add: cell22_def need_def attempt_def)
next
  case (Some e)
  assume "seeded s"
  then have "check_random_state (random_state (params e)) g1
               = check_random_state (random_state (params e)) g2"
    using Some check_seeded by (simp add: seeded_def)
  then show ?thesis using Some
    by (simp add: cell22_def need_def attempt_def fit_call_def Let_def split: option.splits)
qed

lemma upto_regression_same:
  "exec (upto_regression L g1) init = exec (upto_regression L g2) init"
proof (rule exec_cong [where I = seeded])
  show "seeded init" by (simp add: seeded_def init_def)
  show "list_all2 (\<lambda>(n, c) (n', d). n = n' \<and> keeps seeded c \<and> (\<forall>s. seeded s \<longrightarrow> c s = d s))
          (upto_regression L g1) (upto_regression L g2)"
    by (simp add: upto_regression_def loading_def correlation_def regression_def
        keeps_seeded_plain keeps_seeded_fits keeps_seeded_cell10
        same_cell17 same_cell18 same_cell19 same_cell22 same_cell25 same_cell26)
qed

lemmas cell_steps = cell4_def cell6_def cell7_def cell8_def cell11_def cell13_def cell15_def
  cell16_def cell17_def cell18_def cell19_def cell21_def cell22_def cell23_def cell25_def cell26_def
  cell28_def cell30_def cell31_def cell32_def cell33_def cell34_def cell35_def cell36_def cell37_def
  cell38_def cell39_def cell40_def cross_val_cell_def score_cell_def metric_cell_def
  display_def record_call_def Let_def

lemma shown_as_not_scores:
  "shown_as Score r = Inr v \<Longrightarrow> is_scores v = False"
  "shown_as Matrix r' = Inr v \<Longrightarrow> is_scores v = False"
  by (auto simp: shown_as_def split: sum.splits)

lemma frame_attempt:
  "f s = a \<Longrightarrow> (\<And>v. r = Inr v \<Longrightarrow> f (after (k v)) = a) \<Longrightarrow> f (after (attempt s r k)) = a"
  by (simp add: after_attempt split: sum.splits)

lemma regression_view_plain:
  "unchanged (\<lambda>s. (first_partition s, cv_scores s)) cell28"
  "unchanged (\<lambda>s. (first_partition s, cv_scores s)) cell30"
  "unchanged (\<lambda>s. (first_partition s, cv_scores s)) (cell31 L g)"
  "unchanged (\<lambda>s. (first_partition s, cv_scores s)) (cell32 L g)"
  "unchanged (\<lambda>s. (first_partition s, cv_scores s)) (cell36 L g)"
  unfolding unchanged_def
  by ((simp only: cell_steps;
       intro allI frame_attempt [where f = "\<lambda>s. (first_partition s, cv_scores s)"];
       simp add: first_partition_def cv_scores_def split_def)+)

lemma regression_view_score:
  "unchanged (\<lambda>s. (first_partition s, cv_scores s)) (score_cell L name est)"
  unfolding unchanged_def
  by ((simp only: cell_steps;
       intro allI frame_attempt [where f = "\<lambda>s. (first_partition s, cv_scores s)"];
       simp add: first_partition_def cv_scores_def split_def)+)

lemma regression_view_metric:
  assumes "\<And>Y p v. metric Y p = Inr v \<Longrightarrow> \<not> is_scores v"
  shows "unchanged (\<lambda>s. (first_partition s, cv_scores s)) (metric_cell L mname metric name est)"
  unfolding unchanged_def
  by ((simp only: cell_steps;
       intro allI frame_attempt [where f = "\<lambda>s. (first_partition s, cv_scores s)"];
       simp add: first_partition_def cv_scores_def split_def assms)+)

lemma classification_leaves_regression:
  "\<forall>(n, c) \<in> set (classification L g). unchanged (\<lambda>s. (first_partition s, cv_scores s)) c"
  by (simp add: classification_def regression_view_plain
      cell33_def cell34_def cell35_def cell37_def cell38_def cell39_def cell40_def
      regression_view_score regression_view_metric shown_as_not_scores)

lemma notebook_split: "notebook L g = upto_regression L g @ classification L g"
  by (simp add: notebook_def upto_regression_def)

lemma run_starts_with_regression:
  "prefix (fst (exec (upto_regression L g) init)) (fst (run L g))"
  by (simp add: run_def notebook_split exec_append split: prod.splits option.splits)

lemma final_regression_view:
  "(first_partition (final L g), cv_scores (final L g))
     = (first_partition (last (init # map snd (fst (exec (upto_regression L g) init)))),
        cv_scores (last (init # map snd (fst (exec (upto_regression L g) init)))))"
proof -
  let ?view = "\<lambda>s :: 'a kernel. (first_partition s, cv_scores s)"
  obtain tr r where e: "exec (upto_regression L g) init = (tr, r)" by (cases "exec (upto_regression L g) init")
  let ?sA = "last (init # map snd tr)"
  show ?thesis
  proof (cases r)
    case (Some err)
    then have "run L g = (tr, Some err)"
      using e by (simp add: run_def notebook_split exec_append)
    then show ?thesis using e by (simp add: final_def)
  next
    case None
    obtain tr' r' where e': "exec (classification L g) ?sA = (tr', r')"
      by (cases "exec (classification L g) ?sA")
    have "run L g = (tr @ tr', r')"
      using e e' None by (simp add: run_def notebook_split exec_append)
    then have f: "final L g = last (?sA # map snd tr')"
      by (simp add: final_def last_append_state)
    have "\<forall>(n, c) \<in> set (classification L g). keeps (\<lambda>s. ?view s = ?view ?sA) c"
      using classification_leaves_regression [of L g] unchanged_keeps [where P = "\<lambda>v. v = ?view ?sA"]
      by fastforce
    then have "?view (last (?sA # map snd (fst (exec (classification L g) ?sA)))) = ?view ?sA"
      by (rule exec_invariant_last) simp
    then have inv: "?view (last (?sA # map snd tr')) = ?view ?sA"
      unfolding e' fst_conv .
    show ?thesis unfolding f e fst_conv by (rule inv)
  qed
qed

lemma notebook_order: "map fst (notebook L g) = cell_order"
  by (simp add: notebook_def loading_def correlation_def regression_def classification_def
      cell_order_def)

text \<open>
  Claim C7 says that two executions perform the identical sequence of steps. That holds
  up to the end of the regression stage only: with a library whose gradient boosting
  classifier refuses a one-class target, the run with generator state 0 stops at cell 36
  and the run with generator state 1 reaches cell 40.
\<close>

theorem steps_depend_on_the_generator:
  "steps (run strict_lib 0) \<noteq> steps (run strict_lib 1)"
proof -
  have "steps (run strict_lib 0)
          = [4, 6, 7, 8, 10, 11, 13, 15, 16, 17, 18, 19, 21, 22, 23, 25, 26, 28, 30, 31, 32, 33,
             34, 35, 36]"
    by code_simp
  moreover have "steps (run strict_lib 1)
          = [4, 6, 7, 8, 10, 11, 13, 15, 16, 17, 18, 19, 21, 22, 23, 25, 26, 28, 30, 31, 32, 33,
             34, 35, 36, 37, 38, 39, 40]"
    by code_simp
  ultimately show ?thesis by simp
qed

text \<open>
  Claim C7, amended. Two runs on the same library and file, with any two states of the
  global generator, start their cells in the notebook's order; up to the end of the
  regression stage they go through the same cells and leave the same states; and the
  first train/test partition and the two cross-validation score arrays are the same at
  the end of both runs.
\<close>

theorem regression_stage_deterministic:
  "prefix (steps (run L g1)) cell_order \<and> prefix (steps (run L g2)) cell_order
   \<and> exec (upto_regression L g1) init = exec (upto_regression L g2) init
   \<and> prefix (fst (exec (upto_regression L g1) init)) (fst (run L g1))
   \<and> prefix (fst (exec (upto_regression L g2) init)) (fst (run L g2))
   \<and> first_partition (final L g1) = first_partition (final L g2)
   \<and> cv_scores (final L g1) = cv_scores (final L g2)"
proof -
  have o: "prefix (steps (run L g)) cell_order" for g
    using exec_steps [of "notebook L g" init] by (simp add: steps_def run_def notebook_order)
  have v: "(first_partition (final L g1), cv_scores (final L g1))
             = (first_partition (final L g2), cv_scores (final L g2))"
    unfolding final_regression_view upto_regression_same [of L g1 g2] ..
  show ?thesis
    using o [of g1] o [of g2] v upto_regression_same [of L g1 g2]
      run_starts_with_regression [of L g1] run_starts_with_regression [of L g2]
    by simp
qed

lemma rect_row: "rect t \<Longrightarrow> (l, r) \<in> set (rows t) \<Longrightarrow> length r = length (columns t)"
  by (auto simp: rect_def list_all_iff)

lemma setcol_new:
  "c \<notin> set (columns t) \<Longrightarrow>
   setcol t c vs = \<lparr>columns = columns t @ [c],
                   rows = map (\<lambda>((l, r), v). (l, r @ [v])) (zip (rows t) vs)\<rparr>"
  by (simp add: setcol_def index_of_None [symmetric])

lemma zip_rows_take:
  assumes "\<forall>(l, r) \<in> set rs. length r = n" and "length vs = length rs"
  shows "map (\<lambda>(l, r). (l, take n r)) (map (\<lambda>((l, r), v). (l, r @ [v])) (zip rs vs)) = rs"
  using assms(2) [symmetric] assms(1) by (induction rs vs rule: list_induct2) auto

lemma first_columns_setcol:
  assumes "rect t" and "c \<notin> set (columns t)" and "length vs = length (rows t)"
  shows "first_columns (length (columns t)) (setcol t c vs) = t"
proof -
  have "\<forall>(l, r) \<in> set (rows t). length r = length (columns t)"
    using assms(1) by (auto simp: rect_def list_all_iff)
  then have "map (\<lambda>(l, r). (l, take (length (columns t)) r))
               (map (\<lambda>((l, r), v). (l, r @ [v])) (zip (rows t) vs)) = rows t"
    using assms(3) by (rule zip_rows_take)
  then show ?thesis
    by (simp add: first_columns_def setcol_new [OF assms(2)])
qed

lemma first_columns_self:
  assumes "rect t"
  shows "first_columns (length (columns t)) t = t"
proof -
  have "map (\<lambda>(l, r). (l, take (length (columns t)) r)) (rows t) = rows t"
    using assms by (intro map_idI) (auto simp: rect_def list_all_iff)
  then show ?thesis by (simp add: first_columns_def)
qed

lemma zip_rows_overwrite:
  assumes "\<forall>(l, r) \<in> set rs. length r = n" and "length vs = length rs" and "length ws = length rs"
  shows "map (\<lambda>((l, r), w). (l, r[n := w])) (zip (map (\<lambda>((l, r), v). (l, r @ [v])) (zip rs vs)) ws)
           = map (\<lambda>((l, r), w). (l, r @ [w])) (zip rs ws)"
proof -
  have "length rs = length vs" and "length vs = length ws" using assms(2,3) by simp_all
  then show ?thesis using assms(1)
    by (induction rs vs ws rule: list_induct3) auto
qed

lemma setcol_twice:
  assumes "rect t" and "c \<notin> set (columns t)"
    and "length vs = length (rows t)" and "length ws = length (rows t)"
  shows "setcol (setcol t c vs) c ws = setcol t c ws"
proof -
  let ?n = "length (columns t)"
  have r: "\<forall>(l, r) \<in> set (rows t). length r = ?n"
    using assms(1) by (auto simp: rect_def list_all_iff)
  have i: "index_of c (columns t @ [c]) = Some ?n"
    using assms(2) by (rule index_of_append_new)
  have "setcol (setcol t c vs) c ws
          = \<lparr>columns = columns t @ [c],
             rows = map (\<lambda>((l, r), w). (l, r[?n := w]))
                      (zip (map (\<lambda>((l, r), v). (l, r @ [v])) (zip (rows t) vs)) ws)\<rparr>"
    unfolding setcol_new [OF assms(2), of vs] by (simp add: setcol_def i)
  also have "\<dots> = setcol t c ws"
    unfolding setcol_new [OF assms(2), of ws]
    using zip_rows_overwrite [OF r assms(3,4)] by simp
  finally show ?thesis .
qed

lemma getcol_length: "getcol t c = Inr ys \<Longrightarrow> length ys = length (rows t)"
  by (auto simp: getcol_def split: option.splits)

lemma rows_setcol_length: "length vs = length (rows t) \<Longrightarrow> length (rows (setcol t c vs)) = length (rows t)"
  by (simp add: setcol_def split: option.splits)

lemma labelled_cong: "galaxies s' = galaxies s \<Longrightarrow> labelled t s' = labelled t s"
  by (simp add: labelled_def)

lemma galaxies_plain:
  "unchanged galaxies (cell11 L)" "unchanged galaxies cell13" "unchanged galaxies cell15"
  "unchanged galaxies cell16" "unchanged galaxies (cell17 L g)" "unchanged galaxies (cell18 L g)"
  "unchanged galaxies (cross_val_cell L g name est)" "unchanged galaxies cell21"
  "unchanged galaxies (cell22 L g)" "unchanged galaxies (cell23 L)" "unchanged galaxies (cell25 L g)"
  "unchanged galaxies cell28" "unchanged galaxies (cell31 L g)" "unchanged galaxies (cell32 L g)"
  "unchanged galaxies (score_cell L name est)" "unchanged galaxies (metric_cell L mname metric name est)"
  "unchanged galaxies (cell36 L g)"
  unfolding unchanged_def
  by ((simp only: cell_steps; intro allI frame_attempt [where f = galaxies]; simp add: split_def)+)

lemma galaxies_cell10: "unchanged galaxies (cell10 L)"
  by (rule unchanged_cell10) simp

lemma labelled_cell30:
  assumes "rect t" and "''bool'' \<notin> set (columns t)"
  shows "keeps (labelled t) cell30"
proof -
  have "labelled t (after (cell30 s))" if l: "labelled t s" for s :: "'a kernel"
  proof -
    from l obtain t' where g: "galaxies s = Some t'"
      and t': "t' = t \<or> (\<exists>vs. length vs = length (rows t) \<and> t' = setcol t ''bool'' vs)"
      by (auto simp: labelled_def)
    have len: "length (rows t') = length (rows t)"
      using t' by (auto simp: rows_setcol_length)
    show ?thesis
    proof (cases "getcol t' ''Mcz''")
      case (Inl e)
      then show ?thesis using g l by (simp add: cell30_def need_def after_attempt labelled_def)
    next
      case (Inr ys)
      let ?ws = "map (\<lambda>(l, v). Flag (gt v 0.5)) ys"
      have w: "length ?ws = length (rows t)"
        using getcol_length [OF Inr] len by simp
      have "setcol t' ''bool'' ?ws = setcol t ''bool'' ?ws"
        using t' setcol_twice [OF assms _ w] by auto
      then have "galaxies (after (cell30 s)) = Some (setcol t ''bool'' ?ws)"
        using g Inr by (simp add: cell30_def need_def after_attempt)
      then show ?thesis unfolding labelled_def using w by blast
    qed
  qed
  then show ?thesis by (simp add: keeps_def)
qed

lemma labelled_later_cells:
  assumes "rect t" and "''bool'' \<notin> set (columns t)"
  shows "\<forall>(n, c) \<in> set (later_cells L g). keeps (labelled t) c"
proof -
  have k: "keeps (labelled t) c" if "unchanged galaxies c" for c :: "'a kernel \<Rightarrow> 'a outcome"
  proof -
    have "labelled t (after (c s)) = labelled t s" for s
      using that by (intro labelled_cong) (simp add: unchanged_def)
    then show ?thesis by (simp add: keeps_def)
  qed
  show ?thesis
    by (simp add: later_cells_def correlation_def regression_def classification_def
        cell19_def cell26_def cell33_def cell34_def cell35_def cell37_def cell38_def cell39_def
        cell40_def k galaxies_plain galaxies_cell10 labelled_cell30 [OF assms])
qed

text \<open>
  Claim C9. Start the cells that follow the row-drop in a state where \<^verbatim>\<open>galaxies\<close> is a
  rectangular table \<open>t\<close> without a column named \<^verbatim>\<open>bool\<close>. In every state these cells
  leave, \<^verbatim>\<open>galaxies\<close> is a table whose first columns, over all its rows, are \<open>t\<close> itself: no
  row or column of \<open>t\<close> has been removed or changed. The table is \<open>t\<close> or it has exactly
  one more column, \<^verbatim>\<open>bool\<close>.
\<close>

theorem only_the_label_column_is_added:
  assumes "galaxies s = Some t" and "rect t" and "''bool'' \<notin> set (columns t)"
    and "(n, s') \<in> set (fst (exec (later_cells L g) s))"
  shows "\<exists>t'. galaxies s' = Some t'
           \<and> first_columns (length (columns t)) t' = t
           \<and> (t' = t \<or> columns t' = columns t @ [''bool''])"
proof -
  have "labelled t s" using assms(1) by (simp add: labelled_def)
  then have "\<forall>(n, s') \<in> set (fst (exec (later_cells L g) s)). labelled t s'"
    using exec_invariant [OF labelled_later_cells [OF assms(2,3)]] by blast
  then have "labelled t s'" using assms(4) by auto
  then consider "galaxies s' = Some t"
    | vs where "length vs = length (rows t)" "galaxies s' = Some (setcol t ''bool'' vs)"
    by (auto simp: labelled_def)
  then show ?thesis
  proof cases
    case 1
    then show ?thesis using first_columns_self [OF assms(2)] by simp
  next
    case 2
    then show ?thesis
      using first_columns_setcol [OF assms(2,3) 2(1)] setcol_new [OF assms(3), of vs] by simp
  qed
qed

theorem only_the_label_column_is_added_witness:
  "rect (dropna survey_table) \<and> ''bool'' \<notin> set (columns (dropna survey_table))
   \<and> fst (exec (later_cells survey_lib 0) (init\<lparr>galaxies := Some (dropna survey_table)\<rparr>)) \<noteq> []
   \<and> (\<exists>t'. galaxies (snd (last (fst (exec (later_cells survey_lib 0)
                                          (init\<lparr>galaxies := Some (dropna survey_table)\<rparr>))))) = Some t'
          \<and> first_columns 3 t' = dropna survey_table
          \<and> columns t' = [''Mcz'', ''S280MAG'', ''Rmag'', ''bool''])"
proof -
  let ?t = "dropna survey_table"
  let ?s = "init\<lparr>galaxies := Some ?t\<rparr> :: cell kernel"
  let ?tr = "fst (exec (later_cells survey_lib 0) ?s)"
  have h1: "galaxies ?s = Some ?t" by simp
  have h2: "rect ?t" by (simp add: rect_def dropna_def survey_table_def notna_def)
  have h3: "''bool'' \<notin> set (columns ?t)" by (simp add: dropna_def survey_table_def)
  have ev: "(case exec (later_cells survey_lib 0) ?s of
               (tr, r) \<Rightarrow> (tr = [], map_option columns (galaxies (snd (last tr)))))
              = (False, Some [''Mcz'', ''S280MAG'', ''Rmag'', ''bool''])"
    by code_simp
  then have ne: "?tr \<noteq> []"
    and cols: "map_option columns (galaxies (snd (last ?tr))) = Some [''Mcz'', ''S280MAG'', ''Rmag'', ''bool'']"
    by (simp_all split: prod.splits)
  have "(fst (last ?tr), snd (last ?tr)) \<in> set ?tr" using ne by simp
  from only_the_label_column_is_added [OF h1 h2 h3 this]
  obtain t' where g: "galaxies (snd (last ?tr)) = Some t'"
    and f: "first_columns (length (columns ?t)) t' = ?t" by blast
  have "length (columns ?t) = 3" by (simp add: dropna_def survey_table_def)
  then have "first_columns 3 t' = ?t" using f by simp
  moreover have "columns t' = [''Mcz'', ''S280MAG'', ''Rmag'', ''bool'']" using cols g by simp
  ultimately show ?thesis using h2 h3 ne g by simp
qed

lemma survey_digest_0:
  "digest (run survey_lib 0) =
     (None,
       (Some
         [[Num (- 15)], [Num (- 17)], [Num (- 18)], [Num (- 19)], [Num (- 20)],
          [Num (- 21)], [Num (- 22)], [Num (- 23)], [Num (- 24)], [Num (- 25)],
          [Num (- 26)], [Num (- 27)]],
        Some
         [[Num (- 10)], [Num (- 11)], [Num (- 12)], [Num (- 13)], [Num (- 14)]],
        Some
         [(5, Num (1 / 2)), (7, Num (1 / 5)), (8, Num (9 / 10)),
          (9, Num (1 / 10)), (10, Num 1), (11, Num (2 / 5)), (12, Num (3 / 10)),
          (13, Num (4 / 5)), (14, Num (1 / 5)), (15, Num (3 / 5)),
          (16, Num (1 / 10)), (17, Num (7 / 10))],
        Some
         [(0, Num (4 / 5)), (1, Num (9 / 10)), (2, Num (11 / 10)),
          (3, Num (7 / 10)), (4, Num (3 / 5))]),
       (Some
         [[Num (- 15)], [Num (- 17)], [Num (- 18)], [Num (- 19)], [Num (- 20)],
          [Num (- 21)], [Num (- 22)], [Num (- 23)], [Num (- 24)], [Num (- 25)],
          [Num (- 26)], [Num (- 27)]],
        Some
         [[Num (- 10)], [Num (- 11)], [Num (- 12)], [Num (- 13)], [Num (- 14)]],
        Some
         [(5, Flag False), (7, Flag False), (8, Flag True), (9, Flag False),
          (10, Flag True), (11, Flag False), (12, Flag False), (13, Flag True),
          (14, Flag False), (15, Flag True), (16, Flag False), (17, Flag True)],
        Some
         [(0, Flag True), (1, Flag True), (2, Flag True), (3, Flag True),
          (4, Flag True)]),
       [Score 0, Score 0, Score 0, Score 1, Score 1, Score 1,
        Matrix [[0, 0], [0, 5]]],
       [([[Num (- 15)], [Num (- 17)], [Num (- 18)], [Num (- 19)], [Num (- 20)],
          [Num (- 21)], [Num (- 22)], [Num (- 23)], [Num (- 24)], [Num (- 25)],
          [Num (- 26)], [Num (- 27)]],
         [(5, Flag False), (7, Flag False), (8, Flag True), (9, Flag False),
          (10, Flag True), (11, Flag False), (12, Flag False), (13, Flag True),
          (14, Flag False), (15, Flag True), (16, Flag False),
          (17, Flag True)])],
       [([[Num (- 10)], [Num (- 11)], [Num (- 12)], [Num (- 13)], [Num (- 14)]],
         [(0, Flag True), (1, Flag True), (2, Flag True), (3, Flag True),
          (4, Flag True)])])"
  by code_simp

lemma survey_digest_1:
  "digest (run survey_lib 1) =
     (None,
       (Some
         [[Num (- 15)], [Num (- 17)], [Num (- 18)], [Num (- 19)], [Num (- 20)],
          [Num (- 21)], [Num (- 22)], [Num (- 23)], [Num (- 24)], [Num (- 25)],
          [Num (- 26)], [Num (- 27)]],
        Some
         [[Num (- 10)], [Num (- 11)], [Num (- 12)], [Num (- 13)], [Num (- 14)]],
        Some
         [(5, Num (1 / 2)), (7, Num (1 / 5)), (8, Num (9 / 10)),
          (9, Num (1 / 10)), (10, Num 1), (11, Num (2 / 5)), (12, Num (3 / 10)),
          (13, Num (4 / 5)), (14, Num (1 / 5)), (15, Num (3 / 5)),
          (16, Num (1 / 10)), (17, Num (7 / 10))],
        Some
         [(0, Num (4 / 5)), (1, Num (9 / 10)), (2, Num (11 / 10)),
          (3, Num (7 / 10)), (4, Num (3 / 5))]),
       (Some
         [[Num (- 17)], [Num (- 18)], [Num (- 19)], [Num (- 20)], [Num (- 21)],
          [Num (- 22)], [Num (- 23)], [Num (- 24)], [Num (- 25)], [Num (- 26)],
          [Num (- 27)], [Num (- 10)]],
        Some
         [[Num (- 11)], [Num (- 12)], [Num (- 13)], [Num (- 14)], [Num (- 15)]],
        Some
         [(7, Flag False), (8, Flag True), (9, Flag False), (10, Flag True),
          (11, Flag False), (12, Flag False), (13, Flag True), (14, Flag False),
          (15, Flag True), (16, Flag False), (17, Flag True), (0, Flag True)],
        Some
         [(1, Flag True), (2, Flag True), (3, Flag True), (4, Flag True),
          (5, Flag False)]),
       [Score (1 / 5), Score 0, Score 0, Score (4 / 5), Score (4 / 5), Score 1,
        Matrix [[0, 1], [0, 4]]],
       [([[Num (- 17)], [Num (- 18)], [Num (- 19)], [Num (- 20)], [Num (- 21)],
          [Num (- 22)], [Num (- 23)], [Num (- 24)], [Num (- 25)], [Num (- 26)],
          [Num (- 27)], [Num (- 10)]],
         [(7, Flag False), (8, Flag True), (9, Flag False), (10, Flag True),
          (11, Flag False), (12, Flag False), (13, Flag True), (14, Flag False),
          (15, Flag True), (16, Flag False), (17, Flag True), (0, Flag True)])],
       [([[Num (- 11)], [Num (- 12)], [Num (- 13)], [Num (- 14)], [Num (- 15)]],
         [(1, Flag True), (2, Flag True), (3, Flag True), (4, Flag True),
          (5, Flag False)])])"
  by code_simp

lemma digest_run:
  "digest (run L g)
     = (snd (run L g), first_partition (final L g), second_partition (final L g),
        classification_scores (final L g),
        fitted_on (final L g) (AdaBoostClassifier (Some 42)),
        fitted_on (final L g) (GradientBoostingClassifier (Some 42)))"
  by (cases "run L g") (simp add: digest_def summary_def final_def del: last.simps)

lemmas survey_run_0 = survey_digest_0 [unfolded digest_run]

lemmas survey_run_1 = survey_digest_1 [unfolded digest_run]

text \<open>
  Claim C1 asks that every model be fitted on the training partition of the preceding
  split. The notebook run on the survey file with generator state 0 completes; its second
  split hands out twelve training rows and five test rows; \<^verbatim>\<open>abc\<close> is fitted on the twelve
  training rows, and \<^verbatim>\<open>gbc\<close> is fitted on the five test rows, on which it is then scored.
\<close>

theorem gradient_boosting_classifier_is_fitted_on_the_test_partition:
  "snd (run survey_lib 0) = None
   \<and> second_partition (final survey_lib 0)
       = (Some [[Num (- 15)], [Num (- 17)], [Num (- 18)], [Num (- 19)], [Num (- 20)], [Num (- 21)],
           [Num (- 22)], [Num (- 23)], [Num (- 24)], [Num (- 25)], [Num (- 26)], [Num (- 27)]],
          Some [[Num (- 10)], [Num (- 11)], [Num (- 12)], [Num (- 13)], [Num (- 14)]],
          Some [(5, Flag False), (7, Flag False), (8, Flag True), (9, Flag False), (10, Flag True),
           (11, Flag False), (12, Flag False), (13, Flag True), (14, Flag False), (15, Flag True),
           (16, Flag False), (17, Flag True)],
          Some [(0, Flag True), (1, Flag True), (2, Flag True), (3, Flag True), (4, Flag True)])
   \<and> fitted_on (final survey_lib 0) (AdaBoostClassifier (Some 42))
       = [([[Num (- 15)], [Num (- 17)], [Num (- 18)], [Num (- 19)], [Num (- 20)], [Num (- 21)],
           [Num (- 22)], [Num (- 23)], [Num (- 24)], [Num (- 25)], [Num (- 26)], [Num (- 27)]],
           [(5, Flag False), (7, Flag False), (8, Flag True), (9, Flag False), (10, Flag True),
           (11, Flag False), (12, Flag False), (13, Flag True), (14, Flag False), (15, Flag True),
           (16, Flag False), (17, Flag True)])]
   \<and> fitted_on (final survey_lib 0) (GradientBoostingClassifier (Some 42))
       = [([[Num (- 10)], [Num (- 11)], [Num (- 12)], [Num (- 13)], [Num (- 14)]],
           [(0, Flag True), (1, Flag True), (2, Flag True), (3, Flag True), (4, Flag True)])]"
  using survey_run_0 by simp

lemma cell31_partition:
  assumes "x_rev s = Some X" and "galaxies s = Some t" and "getcol t ''bool'' = Inr bs"
  shows "second_partition (after (cell31 L g s))
           = (case train_test_split L (Global g) X bs of
                Inl e \<Rightarrow> second_partition s
              | Inr (a, b, c, d) \<Rightarrow> (Some a, Some b, Some c, Some d))"
  using assms
  by (simp add: cell31_def after_attempt need_def record_call_def second_partition_def Let_def
      split: sum.splits prod.splits)

text \<open>
  Claim C8. The second split draws from the global generator: the partition that cell 31
  binds is the one the library returns for the generator state of the run. On the survey
  file the runs with generator states 0 and 1 both complete and have the same first
  partition, but their second partitions differ and so do the accuracy, precision, recall
  and confusion matrix they display.
\<close>

theorem classification_results_depend_on_the_generator:
  "(snd (run survey_lib 0) = None \<and> snd (run survey_lib 1) = None
    \<and> first_partition (final survey_lib 0) = first_partition (final survey_lib 1)
    \<and> second_partition (final survey_lib 0) \<noteq> second_partition (final survey_lib 1)
    \<and> classification_scores (final survey_lib 0)
        = [Score 0, Score 0, Score 0, Score 1, Score 1, Score 1, Matrix [[0, 0], [0, 5]]]
    \<and> classification_scores (final survey_lib 1)
        = [Score (1 / 5), Score 0, Score 0, Score (4 / 5), Score (4 / 5), Score 1,
           Matrix [[0, 1], [0, 4]]])
   \<and> (\<forall>(L :: 'm lib) g s X t bs.
         x_rev s = Some X \<and> galaxies s = Some t \<and> getcol t ''bool'' = Inr bs \<longrightarrow>
         second_partition (after (cell31 L g s))
           = (case train_test_split L (Global g) X bs of
                Inl e \<Rightarrow> second_partition s
              | Inr (a, b, c, d) \<Rightarrow> (Some a, Some b, Some c, Some d)))"
proof (intro conjI allI impI)
  show "snd (run survey_lib 0) = None"
    using survey_run_0 by simp
  show "snd (run survey_lib 1) = None"
    using survey_run_1 by simp
  show "first_partition (final survey_lib 0) = first_partition (final survey_lib 1)"
    using survey_run_0 survey_run_1 by simp
  show "second_partition (final survey_lib 0) \<noteq> second_partition (final survey_lib 1)"
    using survey_run_0 survey_run_1 by simp
  show "classification_scores (final survey_lib 0)
          = [Score 0, Score 0, Score 0, Score 1, Score 1, Score 1, Matrix [[0, 0], [0, 5]]]"
    using survey_run_0 by simp
  show "classification_scores (final survey_lib 1)
          = [Score (1 / 5), Score 0, Score 0, Score (4 / 5), Score (4 / 5), Score 1,
             Matrix [[0, 1], [0, 4]]]"
    using survey_run_1 by simp
next
  fix L :: "'m lib" and g and s :: "'m kernel" and X t bs
  assume "x_rev s = Some X \<and> galaxies s = Some t \<and> getcol t ''bool'' = Inr bs"
  then show "second_partition (after (cell31 L g s))
           = (case train_test_split L (Global g) X bs of
                Inl e \<Rightarrow> second_partition s
              | Inr (a, b, c, d) \<Rightarrow> (Some a, Some b, Some c, Some d))"
    using cell31_partition by blast
qed

theorem classification_results_depend_on_the_generator_witness:
  "second_partition
     (after (cell31 demo_lib 1
        (init\<lparr>x_rev := Some [[Num 1], [Num 2], [Num 3], [Num 4]],
              galaxies := Some \<lparr>columns = [''bool''],
                                rows = [(0, [Flag True]), (1, [Flag False]),
                                        (2, [Flag False]), (3, [Flag True])]\<rparr>\<rparr>)))
     = (Some [[Num 3], [Num 4], [Num 1]], Some [[Num 2]],
        Some [(2, Flag False), (3, Flag True), (0, Flag True)], Some [(1, Flag False)])"
proof -
  let ?X = "[[Num 1], [Num 2], [Num 3], [Num 4]] :: matrix"
  let ?t = "\<lparr>columns = [''bool''],
             rows = [(0, [Flag True]), (1, [Flag False]), (2, [Flag False]), (3, [Flag True])]\<rparr> :: nat frame"
  let ?bs = "[(0, Flag True), (1, Flag False), (2, Flag False), (3, Flag True)] :: nat series"
  let ?s = "init\<lparr>x_rev := Some ?X, galaxies := Some ?t\<rparr> :: cell kernel"
  have h: "x_rev ?s = Some ?X \<and> galaxies ?s = Some ?t \<and> getcol ?t ''bool'' = Inr ?bs"
    by (simp add: getcol_def cell_at_def)
  have sp: "train_test_split demo_lib (Global 1) ?X ?bs
              = Inr ([[Num 3], [Num 4], [Num 1]], [[Num 2]],
                     [(2, Flag False), (3, Flag True), (0, Flag True)], [(1, Flag False)])"
    by code_simp
  show ?thesis
    using classification_results_depend_on_the_generator
      [THEN conjunct2, rule_format, of ?s ?X ?t ?bs demo_lib 1, OF h] sp
    by simp
qed

lemma rect_setcol: "rect t \<Longrightarrow> rect (setcol t c vs)"
  by (auto simp: rect_def list_all_iff setcol_def split: option.splits dest!: set_zip_leftD)

lemma zip_rows_cells:
  assumes "length rs = length vs" and "\<And>l r v. (l, r) \<in> set rs \<Longrightarrow> h (f r v) = h r"
  shows "map (\<lambda>(l, r). (l, h r)) (map (\<lambda>((l, r), v). (l, f r v)) (zip rs vs))
           = map (\<lambda>(l, r). (l, h r)) rs"
  using assms by (induction rs vs rule: list_induct2) auto

lemma getcol_setcol_other:
  assumes "rect t" and "length vs = length (rows t)" and "c \<noteq> d"
  shows "getcol (setcol t d vs) c = getcol t c"
proof (cases "index_of d (columns t)")
  case None
  then have d: "d \<notin> set (columns t)" by (simp add: index_of_None)
  show ?thesis
  proof (cases "index_of c (columns t)")
    case None
    then have "c \<notin> set (columns t @ [d])" using assms(3) by (simp add: index_of_None)
    then have n: "index_of c (columns t @ [d]) = None" by (simp add: index_of_None)
    show ?thesis unfolding getcol_def setcol_new [OF d] by (simp add: None n)
  next
    case (Some i)
    then have i: "index_of c (columns t @ [d]) = Some i" by (rule index_of_append_old)
    have il: "i < length (columns t)" using index_of_Some [OF Some] by simp
    have "\<And>l r v. (l, r) \<in> set (rows t) \<Longrightarrow> cell_at (r @ [v]) i = cell_at r i"
    proof -
      fix l r v
      assume "(l, r) \<in> set (rows t)"
      then have "length r = length (columns t)" by (rule rect_row [OF assms(1)])
      then show "cell_at (r @ [v]) i = cell_at r i" using il by (simp add: cell_at_def nth_append)
    qed
    then have m: "map (\<lambda>(l, r). (l, cell_at r i)) (map (\<lambda>((l, r), v). (l, r @ [v])) (zip (rows t) vs))
            = map (\<lambda>(l, r). (l, cell_at r i)) (rows t)"
      by (intro zip_rows_cells) (simp_all add: assms(2))
    show ?thesis unfolding getcol_def setcol_new [OF d] using m by (simp add: Some i)
  qed
next
  case (Some j)
  have j: "j < length (columns t) \<and> columns t ! j = d" using Some by (rule index_of_Some)
  show ?thesis
  proof (cases "index_of c (columns t)")
    case None
    show ?thesis unfolding getcol_def setcol_def by (simp add: Some None)
  next
    case i: (Some i)
    have "i < length (columns t) \<and> columns t ! i = c" using i by (rule index_of_Some)
    then have ne: "i \<noteq> j" using j assms(3) by auto
    have "\<And>l r v. (l, r) \<in> set (rows t) \<Longrightarrow> cell_at (r[j := v]) i = cell_at r i"
      using ne by (simp add: cell_at_def)
    then have m: "map (\<lambda>(l, r). (l, cell_at r i)) (map (\<lambda>((l, r), v). (l, r[j := v])) (zip (rows t) vs))
            = map (\<lambda>(l, r). (l, cell_at r i)) (rows t)"
      by (intro zip_rows_cells) (simp_all add: assms(2))
    show ?thesis unfolding getcol_def setcol_def using m by (simp add: Some i)
  qed
qed

lemma split_partsI:
  assumes "train_test_split L (check_random_state sd g) X Y = Inr (a, b, c, d)"
  shows "a \<in> split_parts L g X" and "b \<in> split_parts L g X"
  unfolding split_parts_def using assms by blast+

lemma feature_view_plain:
  "unchanged feature_view (cell11 L)" "unchanged feature_view cell16"
  "unchanged feature_view cell21"
  "unchanged feature_view (cell23 L)" "unchanged feature_view cell28"
  "unchanged feature_view (score_cell L name est)"
  "unchanged feature_view (metric_cell L mname metric name est)"
  unfolding unchanged_def
  by ((simp only: cell_steps; intro allI frame_attempt [where f = feature_view];
       simp add: feature_view_def fit_features_def split_def)+)

lemma feature_view_cell10: "unchanged feature_view (cell10 L)"
  by (rule unchanged_cell10) (simp add: feature_view_def fit_features_def)

lemma provenance_cong: "feature_view s' = feature_view s \<Longrightarrow> provenance L g t s' = provenance L g t s"
  by (simp add: provenance_def feature_view_def)

lemma keep_attempt:
  "I s \<Longrightarrow> (\<And>v. r = Inr v \<Longrightarrow> I (after (k v))) \<Longrightarrow> I (after (attempt s r k))"
  by (simp add: after_attempt split: sum.splits)

lemma need_Inr: "need n x = Inr v \<longleftrightarrow> x = Some v"
  by (simp add: need_def split: option.splits)

lemma fit_call_Inr: "fit_call L g e X Y = Inr a \<Longrightarrow> params a = e"
  by (auto simp: fit_call_def split: sum.splits)

lemma provenance_cell13: "keeps (provenance L g t) cell13"
  unfolding keeps_def
  by (simp only: cell_steps; intro allI impI keep_attempt [where I = "provenance L g t"];
      simp add: provenance_def fit_features_def need_Inr)

lemma provenance_cell15: "keeps (provenance L g t) cell15"
proof -
  have "provenance L g t (after (cell15 s))" if p: "provenance L g t s" for s :: "'a kernel"
  proof (cases "x_col s")
    case None
    then show ?thesis using p by (simp add: cell15_def need_def after_attempt)
  next
    case (Some xs)
    then have "getcol t ''S280MAG'' = Inr xs" using p by (simp add: provenance_def)
    then have "s280mag t = reshape xs" by (simp add: s280mag_def)
    moreover have "after (cell15 s) = s\<lparr>x_rev := Some (reshape xs)\<rparr>"
      using Some by (simp add: cell15_def need_def after_attempt)
    ultimately show ?thesis using p by (simp add: provenance_def fit_features_def)
  qed
  then show ?thesis by (simp add: keeps_def)
qed

lemma provenance_split_first:
  assumes "provenance L g t s" and "x_rev s = Some X"
    and "train_test_split L (check_random_state sd g) X Y = Inr (a, b, c, d)"
  shows "provenance L g t
           (s\<lparr>calls := calls s @ [CallSplit sd' X Y], x_train := Some a, x_test := Some b,
              y_train := Some c, y_test := Some d\<rparr>)"
proof -
  have X: "X = s280mag t" using assms(1,2) by (simp add: provenance_def)
  have ab: "a \<in> split_parts L g (s280mag t)" "b \<in> split_parts L g (s280mag t)"
    using split_partsI [OF assms(3)] unfolding X by simp_all
  show ?thesis using assms(1) ab by (auto simp: provenance_def fit_features_def)
qed

lemma provenance_split_second:
  assumes "provenance L g t s" and "x_rev s = Some X"
    and "train_test_split L (check_random_state sd g) X Y = Inr (a, b, c, d)"
  shows "provenance L g t
           (s\<lparr>calls := calls s @ [CallSplit sd' X Y], x_train2 := Some a, x_test2 := Some b,
              y_train2 := Some c, y_test2 := Some d\<rparr>)"
proof -
  have X: "X = s280mag t" using assms(1,2) by (simp add: provenance_def)
  have ab: "a \<in> split_parts L g (s280mag t)" "b \<in> split_parts L g (s280mag t)"
    using split_partsI [OF assms(3)] unfolding X by simp_all
  show ?thesis using assms(1) ab by (auto simp: provenance_def fit_features_def)
qed

lemma provenance_log_split:
  "provenance L g t s \<Longrightarrow> provenance L g t (s\<lparr>calls := calls s @ [CallSplit sd X Y]\<rparr>)"
  by (simp add: provenance_def fit_features_def)

lemma provenance_cell17: "keeps (provenance L g t) (cell17 L g)"
proof -
  have "provenance L g t (after (cell17 L g s))" if p: "provenance L g t s" for s :: "'a kernel"
  proof (cases "x_rev s")
    case None
    then show ?thesis using p by (simp add: cell17_def need_def after_attempt)
  next
    case X: (Some X)
    show ?thesis
    proof (cases "y_col s")
      case None
      then show ?thesis using p X by (simp add: cell17_def need_def after_attempt)
    next
      case Y: (Some Y)
      show ?thesis
      proof (cases "train_test_split L (check_random_state (Some 42) g) X Y")
        case (Inl e)
        then show ?thesis
          using X Y provenance_log_split [OF p, of "Some 42" X Y]
          by (simp add: cell17_def need_def after_attempt record_call_def Let_def)
      next
        case (Inr v)
        obtain a b c d where v: "v = (a, b, c, d)" by (cases v)
        show ?thesis
          using X Y Inr v provenance_split_first [OF p X, of "Some 42" Y a b c d "Some 42"]
          by (simp add: cell17_def need_def after_attempt record_call_def Let_def)
      qed
    qed
  qed
  then show ?thesis by (simp add: keeps_def)
qed

lemma provenance_cell31: "keeps (provenance L g t) (cell31 L g)"
proof -
  have "provenance L g t (after (cell31 L g s))" if p: "provenance L g t s" for s :: "'a kernel"
  proof (cases "x_rev s")
    case None
    then show ?thesis using p by (simp add: cell31_def need_def after_attempt)
  next
    case X: (Some X)
    show ?thesis
    proof (cases "galaxies s")
      case None
      then show ?thesis using p X by (simp add: cell31_def need_def after_attempt)
    next
      case T: (Some t')
      show ?thesis
      proof (cases "getcol t' ''bool''")
        case (Inl e)
        then show ?thesis using p X T by (simp add: cell31_def need_def after_attempt)
      next
        case B: (Inr bs)
        show ?thesis
        proof (cases "train_test_split L (check_random_state None g) X bs")
          case (Inl e)
          then show ?thesis
            using X T B provenance_log_split [OF p, of None X bs]
            by (simp add: cell31_def need_def after_attempt record_call_def Let_def)
        next
          case (Inr v)
          obtain a b c d where v: "v = (a, b, c, d)" by (cases v)
          show ?thesis
            using X T B Inr v provenance_split_second [OF p X, of None bs a b c d None]
            by (simp add: cell31_def need_def after_attempt record_call_def Let_def)
        qed
      qed
    qed
  qed
  then show ?thesis by (simp add: keeps_def)
qed

lemma provenance_fits:
  "keeps (provenance L g t) (cell18 L g)" "keeps (provenance L g t) (cell22 L g)"
  "keeps (provenance L g t) (cell25 L g)" "keeps (provenance L g t) (cell32 L g)"
  "keeps (provenance L g t) (cell36 L g)"
  "keeps (provenance L g t) (cross_val_cell L g name est)"
  unfolding keeps_def
  by ((simp only: cell_steps; intro allI impI keep_attempt [where I = "provenance L g t"];
       simp add: provenance_def fit_features_def need_Inr)+)

lemma provenance_cell30: "keeps (provenance L g t) cell30"
proof -
  have "provenance L g t (after (cell30 s))" if p: "provenance L g t s" for s :: "'a kernel"
  proof -
    from p obtain t' where g: "galaxies s = Some t'" and r: "rect t'"
      and c: "getcol t' ''S280MAG'' = getcol t ''S280MAG''"
      by (auto simp: provenance_def)
    show ?thesis
    proof (cases "getcol t' ''Mcz''")
      case (Inl e)
      then show ?thesis using g p by (simp add: cell30_def need_def after_attempt)
    next
      case (Inr ys)
      let ?ws = "map (\<lambda>(l, v). Flag (gt v 0.5)) ys"
      let ?t = "setcol t' ''bool'' ?ws"
      have w: "length ?ws = length (rows t')" using getcol_length [OF Inr] by simp
      have a: "after (cell30 s) = s\<lparr>galaxies := Some ?t\<rparr>"
        using g Inr by (simp add: cell30_def need_def after_attempt)
      have "rect ?t" using r by (rule rect_setcol)
      moreover have "getcol ?t ''S280MAG'' = getcol t ''S280MAG''"
        using getcol_setcol_other [OF r w, of "''S280MAG''" "''bool''"] c by simp
      ultimately show ?thesis using p unfolding a by (simp add: provenance_def fit_features_def)
    qed
  qed
  then show ?thesis by (simp add: keeps_def)
qed

lemma provenance_later_cells: "\<forall>(n, c) \<in> set (later_cells L g). keeps (provenance L g t) c"
proof -
  have k: "keeps (provenance L g t) c" if "unchanged feature_view c" for c :: "'a kernel \<Rightarrow> 'a outcome"
  proof -
    have "provenance L g t (after (c s)) = provenance L g t s" for s
      using that by (intro provenance_cong) (simp add: unchanged_def)
    then show ?thesis by (simp add: keeps_def)
  qed
  show ?thesis
    by (simp add: later_cells_def correlation_def regression_def classification_def
        cell19_def cell26_def cell33_def cell34_def cell35_def cell37_def cell38_def cell39_def
        cell40_def k feature_view_plain feature_view_cell10 provenance_cell13 provenance_cell15
        provenance_cell17 provenance_cell31 provenance_fits provenance_cell30)
qed

lemma fit_features_of_mem:
  "X \<in> set (fit_features_of c)
     \<longleftrightarrow> (\<exists>e Y. c = CallFit e X Y) \<or> (\<exists>e Y k. c = CallCrossVal e X Y k)"
  by (cases c) auto

lemma fit_features_mem:
  "X \<in> set (fit_features s)
     \<longleftrightarrow> (\<exists>e Y. CallFit e X Y \<in> set (calls s)) \<or> (\<exists>e Y k. CallCrossVal e X Y k \<in> set (calls s))"
  unfolding fit_features_def set_concat set_map using fit_features_of_mem by fastforce

lemma with_preds_attempt:
  "with_preds q (attempt s r k) = attempt (s\<lparr>preds := q\<rparr>) r (\<lambda>v. with_preds q (k v))"
  by (simp add: attempt_def split: sum.splits)

lemma preds_inward:
  "s\<lparr>galaxies := v0, preds := q\<rparr> = s\<lparr>preds := q, galaxies := v0\<rparr>"
  "s\<lparr>x_col := v1, preds := q\<rparr> = s\<lparr>preds := q, x_col := v1\<rparr>"
  "s\<lparr>y_col := v2, preds := q\<rparr> = s\<lparr>preds := q, y_col := v2\<rparr>"
  "s\<lparr>x_rev := v3, preds := q\<rparr> = s\<lparr>preds := q, x_rev := v3\<rparr>"
  "s\<lparr>x_train := v4, preds := q\<rparr> = s\<lparr>preds := q, x_train := v4\<rparr>"
  "s\<lparr>x_test := v5, preds := q\<rparr> = s\<lparr>preds := q, x_test := v5\<rparr>"
  "s\<lparr>y_train := v6, preds := q\<rparr> = s\<lparr>preds := q, y_train := v6\<rparr>"
  "s\<lparr>y_test := v7, preds := q\<rparr> = s\<lparr>preds := q, y_test := v7\<rparr>"
  "s\<lparr>abr := v8, preds := q\<rparr> = s\<lparr>preds := q, abr := v8\<rparr>"
  "s\<lparr>gs := v9, preds := q\<rparr> = s\<lparr>preds := q, gs := v9\<rparr>"
  "s\<lparr>grad_boost := v10, preds := q\<rparr> = s\<lparr>preds := q, grad_boost := v10\<rparr>"
  "s\<lparr>x_train2 := v11, preds := q\<rparr> = s\<lparr>preds := q, x_train2 := v11\<rparr>"
  "s\<lparr>x_test2 := v12, preds := q\<rparr> = s\<lparr>preds := q, x_test2 := v12\<rparr>"
  "s\<lparr>y_train2 := v13, preds := q\<rparr> = s\<lparr>preds := q, y_train2 := v13\<rparr>"
  "s\<lparr>y_test2 := v14, preds := q\<rparr> = s\<lparr>preds := q, y_test2 := v14\<rparr>"
  "s\<lparr>abc := v15, preds := q\<rparr> = s\<lparr>preds := q, abc := v15\<rparr>"
  "s\<lparr>gbc := v16, preds := q\<rparr> = s\<lparr>preds := q, gbc := v16\<rparr>"
  "s\<lparr>outs := v17, preds := q\<rparr> = s\<lparr>preds := q, outs := v17\<rparr>"
  "s\<lparr>calls := v18, preds := q\<rparr> = s\<lparr>preds := q, calls := v18\<rparr>"
  by simp_all

lemma modelling_ignores_preds:
  "\<forall>(n, c) \<in> set (modelling L g). \<forall>s. c (s\<lparr>preds := q\<rparr>) = with_preds q (c s)"
  by (simp add: modelling_def regression_def classification_def cell_steps with_preds_attempt
      split_def preds_inward)

lemma exec_with_preds:
  assumes "\<forall>(n, c) \<in> set cs. \<forall>s. c (s\<lparr>preds := q\<rparr>) = with_preds q (c s)"
  shows "exec cs (s\<lparr>preds := q\<rparr>)
           = (map (\<lambda>(n, s'). (n, s'\<lparr>preds := q\<rparr>)) (fst (exec cs s)), snd (exec cs s))"
  using assms
proof (induction cs arbitrary: s)
  case Nil
  then show ?case by simp
next
  case (Cons a cs)
  obtain n c where a: "a = (n, c)" by (cases a)
  have c: "c (s\<lparr>preds := q\<rparr>) = with_preds q (c s)" using Cons.prems a by simp
  show ?case
  proof (cases "c s")
    case (Inl p)
    then show ?thesis using a c by (cases p) simp
  next
    case (Inr s')
    have "exec cs (s'\<lparr>preds := q\<rparr>)
            = (map (\<lambda>(n, s'). (n, s'\<lparr>preds := q\<rparr>)) (fst (exec cs s')), snd (exec cs s'))"
      using Cons.IH [of s'] Cons.prems by simp
    then show ?thesis using a c Inr by (simp split: prod.splits)
  qed
qed

text \<open>
  Claim C10. Start the cells that follow the row-drop with a rectangular cleaned table
  \<open>t\<close> whose correlation matrix gives \<^verbatim>\<open>Mcz\<close> the correlation 1 with itself. Then cell 10
  completes and \<^verbatim>\<open>preds\<close> contains \<^verbatim>\<open>Mcz\<close>. The cells from 13 on never read \<^verbatim>\<open>preds\<close>:
  run with any other value bound to it they do the same, state for state. And every
  feature matrix that a call of \<^verbatim>\<open>fit\<close> or of \<^verbatim>\<open>cross_val_score\<close> receives is the
  training part or the test part of a split of the one-column matrix of \<^verbatim>\<open>S280MAG\<close>.
\<close>

theorem preds_contain_target_and_are_never_used:
  assumes "s = init\<lparr>galaxies := Some t, outs := shown0\<rparr>" and "rect t"
    and "corr L t = Inr c" and "getcol c ''Mcz'' = Inr m" and "distinct (map fst m)"
    and "(''Mcz'', Num 1) \<in> set m"
  shows "(\<exists>s1 p. cell10 L s = Inr s1 \<and> preds s1 = Some p \<and> ''Mcz'' \<in> set p)
       \<and> (\<forall>q s2. exec (modelling L g) (s2\<lparr>preds := q\<rparr>)
                   = (map (\<lambda>(n, s'). (n, s'\<lparr>preds := q\<rparr>)) (fst (exec (modelling L g) s2)),
                      snd (exec (modelling L g) s2)))
       \<and> (\<forall>(n, s') \<in> set (fst (exec (later_cells L g) s)).
             (\<forall>e X Y. CallFit e X Y \<in> set (calls s') \<longrightarrow> X \<in> split_parts L g (s280mag t))
           \<and> (\<forall>e X Y k. CallCrossVal e X Y k \<in> set (calls s') \<longrightarrow> X \<in> split_parts L g (s280mag t)))
       \<and> (\<forall>r \<in> set (s280mag t). length r = 1)"
proof (intro conjI)
  have g: "galaxies s = Some t" using assms(1) by simp
  let ?p = "map fst (filter (\<lambda>(k, v). gt (abs_cell v) 0.5) m)"
  have "cell10 L s = Inr (s\<lparr>preds := Some ?p\<rparr>)"
    using cell10_selects [OF g assms(3,4,5)] .
  moreover have "''Mcz'' \<in> set ?p"
    using assms(6) by (force simp: gt_def abs_cell_def)
  ultimately show "\<exists>s1 p. cell10 L s = Inr s1 \<and> preds s1 = Some p \<and> ''Mcz'' \<in> set p"
    by simp
next
  show "\<forall>q s2. exec (modelling L g) (s2\<lparr>preds := q\<rparr>)
                = (map (\<lambda>(n, s'). (n, s'\<lparr>preds := q\<rparr>)) (fst (exec (modelling L g) s2)),
                   snd (exec (modelling L g) s2))"
    using exec_with_preds [OF modelling_ignores_preds] by blast
next
  have "provenance L g t s"
    using assms(1,2) by (simp add: provenance_def fit_features_def init_def)
  then have "\<forall>(n, s') \<in> set (fst (exec (later_cells L g) s)). provenance L g t s'"
    using exec_invariant [OF provenance_later_cells] by blast
  then have "\<forall>(n, s') \<in> set (fst (exec (later_cells L g) s)).
               set (fit_features s') \<subseteq> split_parts L g (s280mag t)"
    by (auto simp: provenance_def)
  then show "\<forall>(n, s') \<in> set (fst (exec (later_cells L g) s)).
             (\<forall>e X Y. CallFit e X Y \<in> set (calls s') \<longrightarrow> X \<in> split_parts L g (s280mag t))
           \<and> (\<forall>e X Y k. CallCrossVal e X Y k \<in> set (calls s') \<longrightarrow> X \<in> split_parts L g (s280mag t))"
    using fit_features_mem by fast
next
  show "\<forall>r \<in> set (s280mag t). length r = 1"
    by (auto simp: s280mag_def reshape_def split: sum.splits)
qed

lemma fit_data_mem: "(X, Y) \<in> set (fit_data e c) \<longleftrightarrow> c = CallFit e X Y"
  by (cases c) auto

lemma fitted_on_mem: "(X, Y) \<in> set (fitted_on s e) \<longleftrightarrow> CallFit e X Y \<in> set (calls s)"
  unfolding fitted_on_def set_concat set_map using fit_data_mem by fastforce

theorem preds_contain_target_and_are_never_used_witness:
  "rect (dropna survey_table)
   \<and> (\<exists>s1 p. cell10 survey_lib (init\<lparr>galaxies := Some (dropna survey_table), outs := []\<rparr>) = Inr s1
         \<and> preds s1 = Some p \<and> ''Mcz'' \<in> set p)
   \<and> CallFit (GradientBoostingClassifier (Some 42))
        [[Num (- 10)], [Num (- 11)], [Num (- 12)], [Num (- 13)], [Num (- 14)]]
        [(0, Flag True), (1, Flag True), (2, Flag True), (3, Flag True), (4, Flag True)]
       \<in> set (calls (snd (last (fst (exec (later_cells survey_lib 0)
                                         (init\<lparr>galaxies := Some (dropna survey_table), outs := []\<rparr>))))))
   \<and> [[Num (- 10)], [Num (- 11)], [Num (- 12)], [Num (- 13)], [Num (- 14)]]
       \<in> split_parts survey_lib 0 (s280mag (dropna survey_table))"
proof -
  let ?t = "dropna survey_table"
  let ?s = "init\<lparr>galaxies := Some ?t, outs := []\<rparr> :: cell kernel"
  let ?c = "\<lparr>columns = columns ?t,
             rows = map (\<lambda>a. (a, map (\<lambda>b. Num (demo_r a b)) (columns ?t))) (columns ?t)\<rparr>"
  let ?m = "[(''Mcz'', Num 1), (''S280MAG'', Num (- 0.8)), (''Rmag'', Num 0.5)] :: string series"
  let ?tr = "fst (exec (later_cells survey_lib 0) ?s)"
  let ?X = "[[Num (- 10)], [Num (- 11)], [Num (- 12)], [Num (- 13)], [Num (- 14)]] :: matrix"
  let ?Y = "[(0, Flag True), (1, Flag True), (2, Flag True), (3, Flag True), (4, Flag True)] :: nat series"
  have h1: "?s = init\<lparr>galaxies := Some ?t, outs := []\<rparr>" by simp
  have h2: "rect ?t" by (simp add: rect_def dropna_def survey_table_def notna_def)
  have h3: "corr survey_lib ?t = Inr ?c"
    by (simp add: survey_lib_def demo_lib_def demo_corr_def)
  have h4: "getcol ?c ''Mcz'' = Inr ?m"
    by (simp add: getcol_def dropna_def survey_table_def cell_at_def demo_r_def)
  have h5: "distinct (map fst ?m)" by simp
  have h6: "(''Mcz'', Num 1) \<in> set ?m" by simp
  note t = preds_contain_target_and_are_never_used [OF h1 h2 h3 h4 h5 h6, of 0]
  have ev: "(case exec (later_cells survey_lib 0) ?s of
               (tr, r) \<Rightarrow> (tr = [], fitted_on (snd (last tr)) (GradientBoostingClassifier (Some 42))))
              = (False, [(?X, ?Y)])"
    by code_simp
  then have ne: "?tr \<noteq> []"
    and f: "fitted_on (snd (last ?tr)) (GradientBoostingClassifier (Some 42)) = [(?X, ?Y)]"
    by (simp_all split: prod.splits)
  have c: "CallFit (GradientBoostingClassifier (Some 42)) ?X ?Y \<in> set (calls (snd (last ?tr)))"
    using f fitted_on_mem [of ?X ?Y "snd (last ?tr)" "GradientBoostingClassifier (Some 42)"] by simp
  have "(fst (last ?tr), snd (last ?tr)) \<in> set ?tr" using ne by simp
  then have "\<forall>e X Y. CallFit e X Y \<in> set (calls (snd (last ?tr)))
               \<longrightarrow> X \<in> split_parts survey_lib 0 (s280mag ?t)"
    using t [THEN conjunct2, THEN conjunct2, THEN conjunct1] by blast
  then have "?X \<in> split_parts survey_lib 0 (s280mag ?t)" using c by blast
  then show ?thesis using h2 t [THEN conjunct1] c by blast
qed


end
